theory Spec2Isabelle
  imports Main "HOL-Library.Word"
begin

unbundle bit_operations_syntax

section \<open>The encode pipeline of \<open>Encoder.cpp\<close>\<close>

text \<open>
  The encoder drives three stateful collaborators whose code is not in \<open>Encoder.cpp\<close>: the
  pixel converter, the codec and the container muxer. Their behaviour is a parameter of
  the model: the converter is the function the encoder owns, the codec and the muxer are
  the record \<open>libav\<close> of step functions over an abstract codec state \<open>'c\<close> and muxer
  state \<open>'m\<close>. So every theorem holds for every converter, codec and muxer. Raw buffers
  and pixel data have the abstract type \<open>'b\<close>.
\<close>

subsection \<open>Data\<close>

type_synonym AVRational = "int \<times> int"

text \<open>The return codes the source compares against: \<open>AVERROR(EAGAIN)\<close> and \<open>AVERROR_EOF\<close>.\<close>

definition AVERROR_EAGAIN :: int where
  "AVERROR_EAGAIN = - 11"

definition AVERROR_EOF :: int where
  "AVERROR_EOF = - 541478725"

definition AV_NOPTS_VALUE :: int where
  "AV_NOPTS_VALUE = - (2 ^ 63)"

record AVPacket =
  pkt_data :: "nat option"
  pkt_pts :: int
  pkt_dts :: int
  stream_index :: int

text \<open>\<open>av_packet_unref\<close> drops the payload reference and resets the fields to their defaults.\<close>

definition blank_packet :: AVPacket where
  "blank_packet = \<lparr>pkt_data = None, pkt_pts = AV_NOPTS_VALUE, pkt_dts = AV_NOPTS_VALUE,
     stream_index = 0\<rparr>"

definition av_packet_unref :: "AVPacket \<Rightarrow> AVPacket" where
  "av_packet_unref p = blank_packet"

record 'b AVFrame =
  frame_data :: 'b
  frame_pts :: "64 word"

record AVStream =
  st_index :: int
  st_time_base :: AVRational

record VideoProperties =
  width :: int
  height :: int
  fps :: int
  pixelFormat :: int
  codecName :: string

record 'c AVCodecContext =
  cc_width :: int
  cc_height :: int
  cc_time_base :: AVRational
  cc_framerate :: AVRational
  cc_gop_size :: int
  cc_max_b_frames :: int
  cc_pix_fmt :: int
  cc_thread_count :: int
  cc_thread_type :: int
  cc_priv :: 'c

record 'm AVFormatContext =
  fc_nofile :: bool
  fc_priv :: 'm

datatype AVCodec = AVCodec (codec_name: string)

text \<open>
  The members of \<open>Encoder\<close>. A \<open>unique_ptr\<close> or raw pointer is an \<open>option\<close> (\<open>None\<close> is
  \<open>nullptr\<close>). The converter maps the frame's pixel data and the raw buffer to a success
  flag (\<open>False\<close>: it threw a \<open>std::exception\<close>, the kind the handler around the call
  catches) and the pixel data it leaves in the frame. The counter \<open>pts\<close>
  is declared in \<open>Encoder.hpp\<close>, which is not at hand; it is assigned to \<open>AVFrame::pts\<close>,
  a signed 64-bit field, and is a 64-bit word here.
\<close>

record ('c, 'm, 'b) Encoder =
  converter :: "('b \<Rightarrow> 'b \<Rightarrow> bool \<times> 'b) option"
  formatCtx :: "'m AVFormatContext option"
  codecCtx :: "'c AVCodecContext option"
  hwDeviceCtx :: "unit option"
  hwFramesCtx :: "unit option"
  stream :: "AVStream option"
  packet :: "AVPacket option"
  properties :: "VideoProperties option"
  hwAccelType :: string
  pts :: "64 word"
  frame :: "'b AVFrame"

text \<open>
  What a call leaves behind outside the object: the calls that \<open>encodeFrame\<close>,
  \<open>finalize\<close> and \<open>close\<close> make into the libraries and what the resets of the smart
  pointers free, in order, and the lines written to \<open>std::cerr\<close>.
\<close>

datatype event =
    Convert bool
  | SendFrame "64 word option" int
  | ReceivePacket int
  | RescaleTs
  | WriteFrame int
  | PacketUnref
  | WriteTrailer int
  | PacketFree
  | FreeCodec
  | FreeFormat
  | FreeHwDevice
  | FreeHwFrames

record world =
  calls :: "event list"
  cerr :: "string list"

text \<open>
  How a call ends: it returns a value, a \<open>CxException\<close> leaves it, or it dereferences a
  null pointer (undefined behaviour, which no handler catches). \<open>CxException\<close> is declared
  in a header that is not at hand; it is a \<open>std::exception\<close>, as the handlers of
  \<open>encodeFrame\<close> presuppose, built from a message or, by \<open>FF_CHECK\<close>, from an error
  code. No handler modelled here prints the text of one built from an error code.
\<close>

datatype exn = CxException string | CxErrorCode int

datatype 'a outcome = Returned 'a | Raised exn | Crashed

fun what :: "exn \<Rightarrow> string" where
  "what (CxException m) = m"
| "what (CxErrorCode r) = ''FFmpeg error''"

text \<open>The library calls \<open>encodeFrame\<close> and \<open>finalize\<close> make.\<close>

record ('c, 'm, 'b) libav =
  avcodec_send_frame :: "'c \<Rightarrow> 'b AVFrame option \<Rightarrow> int \<times> 'c"
  avcodec_receive_packet :: "'c \<Rightarrow> AVPacket \<Rightarrow> int \<times> AVPacket \<times> 'c"
  av_packet_rescale_ts :: "AVPacket \<Rightarrow> AVRational \<Rightarrow> AVRational \<Rightarrow> AVPacket"
  av_interleaved_write_frame :: "'m \<Rightarrow> AVPacket \<Rightarrow> int \<times> AVPacket \<times> 'm"
  av_write_trailer :: "'m \<Rightarrow> int \<times> 'm"
  errorToString :: "int \<Rightarrow> string"

subsection \<open>Construction and \<open>isOpen\<close>\<close>

text \<open>The constructor; \<open>pkt\<close> is what \<open>av_packet_alloc\<close> returned, \<open>fr\<close> the empty frame.\<close>

definition Encoder_new ::
  "('b \<Rightarrow> 'b \<Rightarrow> bool \<times> 'b) option \<Rightarrow> AVPacket option \<Rightarrow> 'b \<Rightarrow> exn + ('c, 'm, 'b) Encoder" where
  "Encoder_new conv pkt fr =
     (case pkt of
        None \<Rightarrow> Inl (CxException ''Could not allocate AVPacket'')
      | Some p \<Rightarrow> Inr \<lparr>converter = conv, formatCtx = None, codecCtx = None, hwDeviceCtx = None,
          hwFramesCtx = None, stream = None, packet = Some p, properties = None,
          hwAccelType = [], pts = 0, frame = \<lparr>frame_data = fr, frame_pts = 0\<rparr>\<rparr>)"

definition isOpen :: "('c, 'm, 'b) Encoder \<Rightarrow> bool" where
  "isOpen e = (formatCtx e \<noteq> None \<and> codecCtx e \<noteq> None)"

text \<open>
  The object a move constructor or move assignment leaves behind: its smart pointers are
  null, \<open>stream\<close> and \<open>packet\<close> are set to \<open>nullptr\<close>, \<open>properties\<close>, \<open>pts\<close> and \<open>frame\<close> stay.
  The string moved from is left valid but unspecified, here empty.
\<close>

definition moved_from :: "('c, 'm, 'b) Encoder \<Rightarrow> ('c, 'm, 'b) Encoder" where
  "moved_from e = e\<lparr>converter := None, formatCtx := None, codecCtx := None,
     hwDeviceCtx := None, hwFramesCtx := None, stream := None, packet := None,
     hwAccelType := []\<rparr>"

subsection \<open>\<open>encodeFrame\<close>\<close>

definition log_call :: "event \<Rightarrow> world \<Rightarrow> world" where
  "log_call ev w = w\<lparr>calls := calls w @ [ev]\<rparr>"

text \<open>
  One packet of either drain loop, from the rescale to the \<open>av_packet_unref\<close> that follows
  the write on both of its branches. \<open>msg\<close> is the message raised when the write fails.
  The result \<open>Returned r\<close> carries the write's return code.
\<close>

definition relay_packet ::
  "('c, 'm, 'b) libav \<Rightarrow> string \<Rightarrow> ('c, 'm, 'b) Encoder \<Rightarrow> world
     \<Rightarrow> int outcome \<times> ('c, 'm, 'b) Encoder \<times> world" where
  "relay_packet L msg e w =
     (case (packet e, codecCtx e, stream e, formatCtx e) of
        (Some p, Some cc, Some st, Some fc) \<Rightarrow>
          let p1 = av_packet_rescale_ts L p (cc_time_base cc) (st_time_base st);
              w1 = log_call RescaleTs w;
              p2 = p1\<lparr>stream_index := st_index st\<rparr>
          in (case av_interleaved_write_frame L (fc_priv fc) p2 of (r, p3, m1) \<Rightarrow>
                let e1 = e\<lparr>formatCtx := Some (fc\<lparr>fc_priv := m1\<rparr>), packet := Some p3\<rparr>;
                    w2 = log_call (WriteFrame r) w1
                in if r < 0
                   then (Raised (CxException msg),
                         e1\<lparr>packet := Some (av_packet_unref p3)\<rparr>, log_call PacketUnref w2)
                   else (Returned r,
                         e1\<lparr>packet := Some (av_packet_unref p3)\<rparr>, log_call PacketUnref w2))
      | _ \<Rightarrow> (Crashed, e, w))"

text \<open>
  The loop \<open>while (ret >= 0)\<close> of \<open>encodeFrame\<close>. A codec that never stops handing out
  packets keeps it running for ever: the result is then \<open>None\<close>.
\<close>

partial_function (option) encode_loop ::
  "('c, 'm, 'b) libav \<Rightarrow> int \<Rightarrow> ('c, 'm, 'b) Encoder \<Rightarrow> world
     \<Rightarrow> (unit outcome \<times> ('c, 'm, 'b) Encoder \<times> world) option" where
  "encode_loop L ret e w =
     (if ret \<ge> 0 then
        (case (codecCtx e, packet e) of
           (Some cc, Some p) \<Rightarrow>
             (case avcodec_receive_packet L (cc_priv cc) p of (r, p1, c1) \<Rightarrow>
                let e1 = e\<lparr>codecCtx := Some (cc\<lparr>cc_priv := c1\<rparr>), packet := Some p1\<rparr>;
                    w1 = log_call (ReceivePacket r) w
                in if r = AVERROR_EAGAIN \<or> r = AVERROR_EOF then Some (Returned (), e1, w1)
                   else if r < 0 then Some (Raised (CxException ''Error during encoding''), e1, w1)
                   else (case relay_packet L ''Error writing packet to output file'' e1 w1 of
                           (Returned r2, e2, w2) \<Rightarrow> encode_loop L r2 e2 w2
                         | (Raised x, e2, w2) \<Rightarrow> Some (Raised x, e2, w2)
                         | (Crashed, e2, w2) \<Rightarrow> Some (Crashed, e2, w2)))
         | _ \<Rightarrow> Some (Crashed, e, w))
      else Some (Returned (), e, w))"

text \<open>The body of the outer \<open>try\<close> block.\<close>

definition encodeFrame_try ::
  "('c, 'm, 'b) libav \<Rightarrow> ('c, 'm, 'b) Encoder \<Rightarrow> world \<Rightarrow> 'b
     \<Rightarrow> (unit outcome \<times> ('c, 'm, 'b) Encoder \<times> world) option" where
  "encodeFrame_try L e w buffer =
     (if \<not> isOpen e then Some (Raised (CxException ''Encoder is not open''), e, w)
      else
        (case converter e of
           None \<Rightarrow> Some (Crashed, e, w)
         | Some conv \<Rightarrow>
             (case conv (frame_data (frame e)) buffer of (ok, d) \<Rightarrow>
                let e1 = e\<lparr>frame := (frame e)\<lparr>frame_data := d\<rparr>\<rparr>;
                    w1 = log_call (Convert ok) w
                in if \<not> ok then Some (Raised (CxException ''Error converting frame''), e1, w1)
                   else
                     let e2 = e1\<lparr>frame := (frame e1)\<lparr>frame_pts := pts e1\<rparr>, pts := pts e1 + 1\<rparr>
                     in (case codecCtx e2 of
                           None \<Rightarrow> Some (Crashed, e2, w1)
                         | Some cc \<Rightarrow>
                             (case avcodec_send_frame L (cc_priv cc) (Some (frame e2)) of
                                (ret, c1) \<Rightarrow>
                                  let e3 = e2\<lparr>codecCtx := Some (cc\<lparr>cc_priv := c1\<rparr>)\<rparr>;
                                      w2 = log_call (SendFrame (Some (frame_pts (frame e2))) ret) w1
                                  in if ret < 0
                                     then Some (Raised (CxException
                                            (''error sending frame to encoder'' @ errorToString L ret)),
                                            e3, w2)
                                     else encode_loop L ret e3 w2)))))"

text \<open>The outer handler: the message goes to \<open>std::cerr\<close> and the call returns \<open>false\<close>.\<close>

definition encodeFrame ::
  "('c, 'm, 'b) libav \<Rightarrow> ('c, 'm, 'b) Encoder \<Rightarrow> world \<Rightarrow> 'b
     \<Rightarrow> (bool outcome \<times> ('c, 'm, 'b) Encoder \<times> world) option" where
  "encodeFrame L e w buffer =
     (case encodeFrame_try L e w buffer of
        None \<Rightarrow> None
      | Some (Returned u, e1, w1) \<Rightarrow> Some (Returned True, e1, w1)
      | Some (Raised x, e1, w1) \<Rightarrow>
          Some (Returned False, e1, w1\<lparr>cerr := cerr w1 @ [''Error in Write Frame: '' @ what x]\<rparr>)
      | Some (Crashed, e1, w1) \<Rightarrow> Some (Crashed, e1, w1))"

subsection \<open>\<open>finalize\<close>\<close>

text \<open>
  The loop \<open>while (ret >= 0)\<close> of \<open>finalize\<close>. \<open>break\<close> leaves the loop; \<open>continue\<close>
  goes back to the loop test with the \<open>ret\<close> just received.
\<close>

partial_function (option) flush_loop ::
  "('c, 'm, 'b) libav \<Rightarrow> int \<Rightarrow> ('c, 'm, 'b) Encoder \<Rightarrow> world
     \<Rightarrow> (unit outcome \<times> ('c, 'm, 'b) Encoder \<times> world) option" where
  "flush_loop L ret e w =
     (if ret \<ge> 0 then
        (case (codecCtx e, packet e) of
           (Some cc, Some p) \<Rightarrow>
             (case avcodec_receive_packet L (cc_priv cc) p of (r, p1, c1) \<Rightarrow>
                let e1 = e\<lparr>codecCtx := Some (cc\<lparr>cc_priv := c1\<rparr>), packet := Some p1\<rparr>;
                    w1 = log_call (ReceivePacket r) w
                in if r = AVERROR_EOF then Some (Returned (), e1, w1)
                   else if r = AVERROR_EAGAIN then flush_loop L r e1 w1
                   else if r < 0
                   then Some (Raised (CxException ''Error during encoding flush''), e1, w1)
                   else (case relay_packet L ''Error writing flushed packet to output file'' e1 w1 of
                           (Returned r2, e2, w2) \<Rightarrow> flush_loop L r2 e2 w2
                         | (Raised x, e2, w2) \<Rightarrow> Some (Raised x, e2, w2)
                         | (Crashed, e2, w2) \<Rightarrow> Some (Crashed, e2, w2)))
         | _ \<Rightarrow> Some (Crashed, e, w))
      else Some (Returned (), e, w))"

definition write_trailer ::
  "('c, 'm, 'b) libav \<Rightarrow> ('c, 'm, 'b) Encoder \<Rightarrow> world
     \<Rightarrow> bool outcome \<times> ('c, 'm, 'b) Encoder \<times> world" where
  "write_trailer L e w =
     (case formatCtx e of
        None \<Rightarrow> (Crashed, e, w)
      | Some fc \<Rightarrow>
          (case av_write_trailer L (fc_priv fc) of (r, m1) \<Rightarrow>
             let e1 = e\<lparr>formatCtx := Some (fc\<lparr>fc_priv := m1\<rparr>)\<rparr>;
                 w1 = log_call (WriteTrailer r) w
             in if r < 0
                then (Raised (CxException ''Error writing trailer to output file''), e1, w1)
                else (Returned True, e1, w1)))"

definition finalize ::
  "('c, 'm, 'b) libav \<Rightarrow> ('c, 'm, 'b) Encoder \<Rightarrow> world
     \<Rightarrow> (bool outcome \<times> ('c, 'm, 'b) Encoder \<times> world) option" where
  "finalize L e w =
     (if \<not> isOpen e then Some (Returned False, e, w)
      else
        (case codecCtx e of
           None \<Rightarrow> Some (Crashed, e, w)
         | Some cc \<Rightarrow>
             (case avcodec_send_frame L (cc_priv cc) None of (ret, c1) \<Rightarrow>
                let e1 = e\<lparr>codecCtx := Some (cc\<lparr>cc_priv := c1\<rparr>)\<rparr>;
                    w1 = log_call (SendFrame None ret) w
                in if ret < 0
                   then Some (Raised (CxException ''Error sending flush frame to encoder''), e1, w1)
                   else
                     (case flush_loop L ret e1 w1 of
                        None \<Rightarrow> None
                      | Some (Returned u, e2, w2) \<Rightarrow> Some (write_trailer L e2 w2)
                      | Some (Raised x, e2, w2) \<Rightarrow> Some (Raised x, e2, w2)
                      | Some (Crashed, e2, w2) \<Rightarrow> Some (Crashed, e2, w2)))))"

subsection \<open>\<open>close\<close> and the destructor\<close>

text \<open>Resetting a smart pointer frees what it holds, if anything.\<close>

definition log_free :: "'a option \<Rightarrow> event \<Rightarrow> world \<Rightarrow> world" where
  "log_free ptr ev w = (if ptr = None then w else log_call ev w)"

text \<open>
  \<open>close\<close> has no handler around \<open>finalize()\<close>: an exception of \<open>finalize\<close> leaves \<open>close\<close>
  at its first statement.
\<close>

definition close ::
  "('c, 'm, 'b) libav \<Rightarrow> ('c, 'm, 'b) Encoder \<Rightarrow> world
     \<Rightarrow> (unit outcome \<times> ('c, 'm, 'b) Encoder \<times> world) option" where
  "close L e w =
     (case finalize L e w of
        None \<Rightarrow> None
      | Some (Raised x, e1, w1) \<Rightarrow> Some (Raised x, e1, w1)
      | Some (Crashed, e1, w1) \<Rightarrow> Some (Crashed, e1, w1)
      | Some (Returned b, e1, w1) \<Rightarrow>
          let w2 = log_free (packet e1) PacketFree w1;
              e2 = e1\<lparr>packet := None\<rparr>;
              w3 = log_free (codecCtx e2) FreeCodec w2;
              e3 = e2\<lparr>codecCtx := None\<rparr>;
              w4 = log_free (formatCtx e3) FreeFormat w3;
              e4 = e3\<lparr>formatCtx := None\<rparr>;
              w5 = log_free (hwDeviceCtx e4) FreeHwDevice w4;
              e5 = e4\<lparr>hwDeviceCtx := None\<rparr>;
              w6 = log_free (hwFramesCtx e5) FreeHwFrames w5;
              e6 = e5\<lparr>hwFramesCtx := None\<rparr>
          in Some (Returned (), e6\<lparr>stream := None\<rparr>, w6))"

text \<open>
  \<open>~Encoder()\<close> calls \<open>close()\<close>. A destructor is \<open>noexcept\<close>: an exception that leaves
  \<open>close\<close> there ends the program through \<open>std::terminate\<close>.
\<close>

datatype destroyed = Destroyed | Terminate exn | DestructorCrashed

definition Encoder_destructor ::
  "('c, 'm, 'b) libav \<Rightarrow> ('c, 'm, 'b) Encoder \<Rightarrow> world \<Rightarrow> (destroyed \<times> world) option" where
  "Encoder_destructor L e w =
     (case close L e w of
        None \<Rightarrow> None
      | Some (Returned u, e1, w1) \<Rightarrow> Some (Destroyed, w1)
      | Some (Raised x, e1, w1) \<Rightarrow> Some (Terminate x, w1)
      | Some (Crashed, e1, w1) \<Rightarrow> Some (DestructorCrashed, w1))"

subsection \<open>\<open>initialize\<close>\<close>

text \<open>The library calls \<open>initialize\<close> makes; an allocation that fails returns \<open>None\<close>.\<close>

record ('c, 'm) libav_open =
  avformat_alloc_output_context2 :: "string \<Rightarrow> 'm AVFormatContext option"
  avio_open :: "'m \<Rightarrow> string \<Rightarrow> int \<times> 'm"
  avcodec_find_encoder_by_name :: "string \<Rightarrow> AVCodec option"
  avcodec_alloc_context3 :: "AVCodec \<Rightarrow> 'c option"
  hardware_concurrency :: nat
  avcodec_open2 :: "'c AVCodecContext \<Rightarrow> AVCodec \<Rightarrow> int \<times> 'c"
  avformat_new_stream :: "'m \<Rightarrow> AVCodec \<Rightarrow> (AVStream \<times> 'm) option"
  avcodec_parameters_from_context :: "'c AVCodecContext \<Rightarrow> int"
  avformat_write_header :: "'m \<Rightarrow> AVStream \<Rightarrow> int \<times> 'm \<times> AVStream"

text \<open>
  Modelled from the spec: the macro \<open>FF_CHECK\<close> is defined in a header that is not part of
  the sources at hand. After the spec's "each failure aborts initialization" it raises when
  the call's result is negative.
\<close>

definition FF_CHECK :: "int \<Rightarrow> exn option" where
  "FF_CHECK r = (if r < 0 then Some (CxErrorCode r) else None)"

definition openFile ::
  "('c, 'm) libav_open \<Rightarrow> ('c, 'm, 'b) Encoder \<Rightarrow> world \<Rightarrow> string \<Rightarrow> VideoProperties
     \<Rightarrow> unit outcome \<times> ('c, 'm, 'b) Encoder \<times> world" where
  "openFile I e w outputPath props =
     (case avformat_alloc_output_context2 I outputPath of
        None \<Rightarrow> (Raised (CxException ''Could not allocate output format context''), e, w)
      | Some fmt_ctx \<Rightarrow>
          let w1 = log_free (formatCtx e) FreeFormat w;
              e1 = e\<lparr>formatCtx := Some fmt_ctx\<rparr>
          in if \<not> fc_nofile fmt_ctx
             then (case avio_open I (fc_priv fmt_ctx) outputPath of (ret, m1) \<Rightarrow>
                     let e2 = e1\<lparr>formatCtx := Some (fmt_ctx\<lparr>fc_priv := m1\<rparr>)\<rparr>
                     in if ret < 0
                        then (Raised (CxException (''Could not open output file: '' @ outputPath)),
                              e2, w1)
                        else (Returned (), e2, w1))
             else (Returned (), e1, w1))"

definition initHWAccel :: "('c, 'm, 'b) Encoder \<Rightarrow> ('c, 'm, 'b) Encoder" where
  "initHWAccel e = e"

definition FF_THREAD_FRAME :: int where
  "FF_THREAD_FRAME = 1"

definition FF_THREAD_SLICE :: int where
  "FF_THREAD_SLICE = 2"

definition initCodecContext ::
  "('c, 'm) libav_open \<Rightarrow> ('c, 'm, 'b) Encoder \<Rightarrow> world \<Rightarrow> AVCodec \<Rightarrow> VideoProperties
     \<Rightarrow> unit outcome \<times> ('c, 'm, 'b) Encoder \<times> world" where
  "initCodecContext I e w codec props =
     (case avcodec_alloc_context3 I codec of
        None \<Rightarrow> (Raised (CxException ''Could not allocate codec context''), e, w)
      | Some codec_ctx \<Rightarrow>
          let w1 = log_free (codecCtx e) FreeCodec w;
              cc = \<lparr>cc_width = width props, cc_height = height props,
                    cc_time_base = (1, fps props), cc_framerate = (fps props, 1),
                    cc_gop_size = 12, cc_max_b_frames = 0, cc_pix_fmt = pixelFormat props,
                    cc_thread_count = int (min (hardware_concurrency I) 16),
                    cc_thread_type = FF_THREAD_FRAME OR FF_THREAD_SLICE,
                    cc_priv = codec_ctx\<rparr>
          in (case avcodec_open2 I cc codec of (ret, c1) \<Rightarrow>
                let e1 = e\<lparr>codecCtx := Some (cc\<lparr>cc_priv := c1\<rparr>)\<rparr>
                in (case FF_CHECK ret of
                      Some x \<Rightarrow> (Raised x, e1, w1)
                    | None \<Rightarrow> (Returned (), e1, w1))))"

text \<open>
  \<open>VideoProperties\<close> is declared in a header that is not at hand; \<open>fps\<close> stands for the
  integer \<open>static_cast<int>(props.fps)\<close>.
\<close>

definition initialize ::
  "('c, 'm) libav_open \<Rightarrow> ('c, 'm, 'b) Encoder \<Rightarrow> world \<Rightarrow> string \<Rightarrow> VideoProperties
     \<Rightarrow> unit outcome \<times> ('c, 'm, 'b) Encoder \<times> world" where
  "initialize I e w outputPath props =
     (case openFile I (e\<lparr>properties := Some props\<rparr>) w outputPath props of
        (Raised x, e1, w1) \<Rightarrow> (Raised x, e1, w1)
      | (Crashed, e1, w1) \<Rightarrow> (Crashed, e1, w1)
      | (Returned u, e1, w1) \<Rightarrow>
          (case avcodec_find_encoder_by_name I (codecName props) of
             None \<Rightarrow> (Raised (CxException (''Encoder not found: '' @ codecName props)),
                       initHWAccel e1, w1)
           | Some codec \<Rightarrow>
               (case initCodecContext I (initHWAccel e1) w1 codec props of
                  (Raised x, e2, w2) \<Rightarrow> (Raised x, e2, w2)
                | (Crashed, e2, w2) \<Rightarrow> (Crashed, e2, w2)
                | (Returned u, e2, w2) \<Rightarrow>
                    (case (formatCtx e2, codecCtx e2) of
                       (Some fc, Some cc) \<Rightarrow>
                         (case avformat_new_stream I (fc_priv fc) codec of
                            None \<Rightarrow> (Raised (CxException ''Failed allocating output stream''),
                                      e2\<lparr>stream := None\<rparr>, w2)
                          | Some (st, m1) \<Rightarrow>
                              let e3 = e2\<lparr>stream := Some st,
                                          formatCtx := Some (fc\<lparr>fc_priv := m1\<rparr>)\<rparr>
                              in if avcodec_parameters_from_context I cc < 0
                                 then (Raised (CxException
                                         ''Failed to copy codec parameters to stream''), e3, w2)
                                 else
                                   (case avformat_write_header I m1
                                           (st\<lparr>st_time_base := cc_time_base cc\<rparr>) of
                                      (ret, m2, st2) \<Rightarrow>
                                        let e4 = e3\<lparr>stream := Some st2,
                                                    formatCtx := Some (fc\<lparr>fc_priv := m2\<rparr>)\<rparr>
                                        in if ret < 0
                                           then (Raised (CxException
                                             ''Error occurred when writing header to output file''),
                                             e4, w2)
                                           else (Returned (), e4, w2)))
                     | _ \<Rightarrow> (Crashed, e2, w2)))))"

subsection \<open>A session\<close>

text \<open>
  The calls a client makes on an encoder, one after the other. A \<open>finalize\<close> that raises
  hands control back to the client, which may go on; after a crash nothing runs.
\<close>

datatype 'b request = EncodeFrame 'b | Finalize

definition perform ::
  "('c, 'm, 'b) libav \<Rightarrow> ('c, 'm, 'b) Encoder \<Rightarrow> world \<Rightarrow> 'b request
     \<Rightarrow> (bool outcome \<times> ('c, 'm, 'b) Encoder \<times> world) option" where
  "perform L e w rq = (case rq of EncodeFrame buffer \<Rightarrow> encodeFrame L e w buffer
                                 | Finalize \<Rightarrow> finalize L e w)"

fun session ::
  "('c, 'm, 'b) libav \<Rightarrow> ('c, 'm, 'b) Encoder \<Rightarrow> world \<Rightarrow> 'b request list
     \<Rightarrow> (('c, 'm, 'b) Encoder \<times> world) option" where
  "session L e w [] = Some (e, w)"
| "session L e w (rq # rqs) =
     (case perform L e w rq of
        None \<Rightarrow> None
      | Some (Crashed, e1, w1) \<Rightarrow> Some (e1, w1)
      | Some (r, e1, w1) \<Rightarrow> session L e1 w1 rqs)"

text \<open>The timestamps of the frames handed to the codec, in the order of the calls.\<close>

fun stamps :: "event list \<Rightarrow> 64 word list" where
  "stamps [] = []"
| "stamps (SendFrame (Some t) r # evs) = t # stamps evs"
| "stamps (ev # evs) = stamps evs"

section \<open>Vocabulary of the properties\<close>

text \<open>A library call that reports an error; "need more input" and "end of stream" are not errors.\<close>

fun failed :: "event \<Rightarrow> bool" where
  "failed (Convert ok) = (\<not> ok)"
| "failed (SendFrame f r) = (r < 0)"
| "failed (ReceivePacket r) = (r < 0 \<and> r \<noteq> AVERROR_EAGAIN \<and> r \<noteq> AVERROR_EOF)"
| "failed (WriteFrame r) = (r < 0)"
| "failed (WriteTrailer r) = (r < 0)"
| "failed ev = False"

fun is_write :: "event \<Rightarrow> bool" where
  "is_write (WriteFrame r) = True"
| "is_write ev = False"

text \<open>Every write in a list of calls is followed at once by \<open>av_packet_unref\<close>.\<close>

fun writes_unreffed :: "event list \<Rightarrow> bool" where
  "writes_unreffed [] = True"
| "writes_unreffed (ev # evs) =
     (if is_write ev
      then (case evs of [] \<Rightarrow> False | ev' # evs' \<Rightarrow> ev' = PacketUnref) \<and> writes_unreffed evs
      else writes_unreffed evs)"

text \<open>
  The codec, in state \<open>c\<close>, answers one of the next \<open>n\<close> calls of
  \<open>avcodec_receive_packet\<close> with a negative code. A codec that \<open>always_drains\<close> does so
  from every state: it never hands out packets for ever.
\<close>

primrec dry_within :: "nat \<Rightarrow> ('c, 'm, 'b) libav \<Rightarrow> 'c \<Rightarrow> AVPacket \<Rightarrow> bool" where
  "dry_within 0 L c p = False"
| "dry_within (Suc n) L c p =
     (case avcodec_receive_packet L c p of (r, p1, c1) \<Rightarrow> r < 0 \<or> dry_within n L c1 blank_packet)"

definition always_drains :: "('c, 'm, 'b) libav \<Rightarrow> bool" where
  "always_drains L \<longleftrightarrow> (\<forall>c p. \<exists>n. dry_within n L c p)"

text \<open>What the drain loops leave alone in the encoder.\<close>

definition same_session :: "('c, 'm, 'b) Encoder \<Rightarrow> ('c, 'm, 'b) Encoder \<Rightarrow> bool" where
  "same_session e e' \<longleftrightarrow>
     pts e' = pts e \<and> frame e' = frame e \<and> converter e' = converter e \<and> stream e' = stream e
     \<and> hwDeviceCtx e' = hwDeviceCtx e \<and> hwFramesCtx e' = hwFramesCtx e
     \<and> properties e' = properties e \<and> hwAccelType e' = hwAccelType e
     \<and> (codecCtx e' = None \<longleftrightarrow> codecCtx e = None)
     \<and> (formatCtx e' = None \<longleftrightarrow> formatCtx e = None)
     \<and> (packet e' = None \<longleftrightarrow> packet e = None)"

text \<open>What a drain loop that ends with outcome \<open>r\<close> has done.\<close>

definition loop_post ::
  "('c, 'm, 'b) Encoder \<Rightarrow> world \<Rightarrow> unit outcome \<Rightarrow> ('c, 'm, 'b) Encoder \<Rightarrow> world \<Rightarrow> bool" where
  "loop_post e w r e' w' \<longleftrightarrow>
     same_session e e' \<and> cerr w' = cerr w \<and>
     (\<exists>evs. calls w' = calls w @ evs \<and> stamps evs = [] \<and> writes_unreffed evs \<and>
        (r = Returned () \<longrightarrow> \<not> list_ex failed evs) \<and>
        (\<forall>x. r = Raised x \<longrightarrow> list_ex failed evs) \<and>
        (r = Crashed \<longrightarrow> packet e = None \<or> stream e = None \<or> codecCtx e = None \<or> formatCtx e = None) \<and>
        (evs = [] \<longrightarrow> e' = e) \<and>
        (evs \<noteq> [] \<and> last evs = PacketUnref \<longrightarrow> packet e' = Some blank_packet))"

text \<open>What every call on the encoder guarantees about the calls \<open>evs\<close> it has made.\<close>

definition call_post ::
  "('c, 'm, 'b) Encoder \<Rightarrow> world \<Rightarrow> ('c, 'm, 'b) Encoder \<Rightarrow> world \<Rightarrow> event list \<Rightarrow> bool" where
  "call_post e w e' w' evs \<longleftrightarrow>
     isOpen e' = isOpen e \<and> calls w' = calls w @ evs \<and> writes_unreffed evs \<and>
     (stamps evs = [] \<and> pts e' = pts e \<or> stamps evs = [pts e] \<and> pts e' = pts e + 1) \<and>
     (evs \<noteq> [] \<and> last evs = PacketUnref \<longrightarrow> packet e' = Some blank_packet) \<and>
     converter e' = converter e \<and> stream e' = stream e \<and>
     (packet e' = None \<longleftrightarrow> packet e = None)"

text \<open>No pointer that \<open>encodeFrame\<close> and \<open>finalize\<close> dereference on an open session is null.\<close>

definition usable :: "('c, 'm, 'b) Encoder \<Rightarrow> bool" where
  "usable e \<longleftrightarrow> converter e \<noteq> None \<and> packet e \<noteq> None \<and> stream e \<noteq> None"

text \<open>
  The exceptions of \<open>initialize\<close>, by the place that raises them: up to the allocation of
  the codec context, and from \<open>avcodec_open2\<close> on.
\<close>

fun raised_before_codec :: "string \<Rightarrow> VideoProperties \<Rightarrow> exn \<Rightarrow> bool" where
  "raised_before_codec outputPath props (CxException m) =
     (m = ''Could not allocate output format context''
      \<or> m = ''Could not open output file: '' @ outputPath
      \<or> m = ''Encoder not found: '' @ codecName props
      \<or> m = ''Could not allocate codec context'')"
| "raised_before_codec outputPath props (CxErrorCode r) = False"

fun raised_after_codec :: "exn \<Rightarrow> bool" where
  "raised_after_codec (CxException m) =
     (m = ''Failed allocating output stream''
      \<or> m = ''Failed to copy codec parameters to stream''
      \<or> m = ''Error occurred when writing header to output file'')"
| "raised_after_codec (CxErrorCode r) = (r < 0)"

text \<open>
  The frames handed to the codec so far carry the timestamps \<open>0, 1, \<dots>\<close> in this order, and
  the counter holds their number.
\<close>

definition counted :: "('c, 'm, 'b) Encoder \<Rightarrow> world \<Rightarrow> bool" where
  "counted e w \<longleftrightarrow>
     stamps (calls w) = map of_nat [0..<length (stamps (calls w))]
     \<and> pts e = of_nat (length (stamps (calls w)))"

section \<open>A scripted codec and muxer\<close>

text \<open>
  Test doubles for the concrete runs below. The codec state is a draining flag and the
  queue of codes its next \<open>avcodec_receive_packet\<close> calls return; like FFmpeg's encoders it
  answers \<open>AVERROR_EOF\<close> to every frame sent after the flush frame, \<open>AVERROR(EAGAIN)\<close> to a
  receive on an empty queue before the flush and \<open>AVERROR_EOF\<close> after it. The muxer state
  is the list of codes its next calls return (none left: success). The converter rejects
  the buffer \<open>0\<close>.
\<close>

definition scripted :: "(bool \<times> int list, int list, nat) libav" where
  "scripted =
     \<lparr>avcodec_send_frame = (\<lambda>(dr, q) f.
          if dr then (AVERROR_EOF, (dr, q))
          else (0, ((case f of None \<Rightarrow> True | Some fr \<Rightarrow> False), q))),
      avcodec_receive_packet = (\<lambda>(dr, q) p.
          case q of
            [] \<Rightarrow> ((if dr then AVERROR_EOF else AVERROR_EAGAIN), blank_packet, (dr, q))
          | r # q' \<Rightarrow>
              (r, (if r < 0 then blank_packet
                   else \<lparr>pkt_data = Some (length q'), pkt_pts = 0, pkt_dts = 0, stream_index = 0\<rparr>),
               (dr, q'))),
      av_packet_rescale_ts = (\<lambda>p src dst. p),
      av_interleaved_write_frame = (\<lambda>m p.
          case m of [] \<Rightarrow> (0, blank_packet, []) | r # m' \<Rightarrow> (r, blank_packet, m')),
      av_write_trailer = (\<lambda>m. case m of [] \<Rightarrow> (0, []) | r # m' \<Rightarrow> (r, m')),
      errorToString = (\<lambda>r. [])\<rparr>"

definition scripted_open :: "(bool \<times> int list, int list) libav_open" where
  "scripted_open =
     \<lparr>avformat_alloc_output_context2 = (\<lambda>path. Some \<lparr>fc_nofile = False, fc_priv = []\<rparr>),
      avio_open = (\<lambda>m path. (0, m)),
      avcodec_find_encoder_by_name = (\<lambda>name. Some (AVCodec name)),
      avcodec_alloc_context3 = (\<lambda>codec. Some (False, [])),
      hardware_concurrency = 8,
      avcodec_open2 = (\<lambda>cc codec. (0, cc_priv cc)),
      avformat_new_stream = (\<lambda>m codec. Some (\<lparr>st_index = 0, st_time_base = (0, 1)\<rparr>, m)),
      avcodec_parameters_from_context = (\<lambda>cc. 0),
      avformat_write_header = (\<lambda>m st. (0, m, st))\<rparr>"

definition reject_zero :: "nat \<Rightarrow> nat \<Rightarrow> bool \<times> nat" where
  "reject_zero fr buffer = (buffer \<noteq> 0, buffer)"

definition props_720p :: VideoProperties where
  "props_720p = \<lparr>width = 1280, height = 720, fps = 30, pixelFormat = 0, codecName = ''libx264''\<rparr>"

text \<open>An open session on the scripted codec with queue \<open>q\<close> and the muxer with script \<open>m\<close>.\<close>

definition open_session :: "int list \<Rightarrow> int list \<Rightarrow> (bool \<times> int list, int list, nat) Encoder" where
  "open_session q m =
     \<lparr>converter = Some reject_zero,
      formatCtx = Some \<lparr>fc_nofile = False, fc_priv = m\<rparr>,
      codecCtx = Some \<lparr>cc_width = 1280, cc_height = 720, cc_time_base = (1, 30),
        cc_framerate = (30, 1), cc_gop_size = 12, cc_max_b_frames = 0, cc_pix_fmt = 0,
        cc_thread_count = 8, cc_thread_type = 3, cc_priv = (False, q)\<rparr>,
      hwDeviceCtx = None, hwFramesCtx = None,
      stream = Some \<lparr>st_index = 0, st_time_base = (1, 30)\<rparr>,
      packet = Some blank_packet, properties = Some props_720p, hwAccelType = [],
      pts = 0, frame = \<lparr>frame_data = 0, frame_pts = 0\<rparr>\<rparr>"

definition quiet :: world where
  "quiet = \<lparr>calls = [], cerr = []\<rparr>"

text \<open>The encoder the constructor builds around \<open>reject_zero\<close>.\<close>

definition fresh_encoder :: "(bool \<times> int list, int list, nat) Encoder" where
  "fresh_encoder =
     \<lparr>converter = Some reject_zero, formatCtx = None, codecCtx = None, hwDeviceCtx = None,
      hwFramesCtx = None, stream = None, packet = Some blank_packet, properties = None,
      hwAccelType = [], pts = 0, frame = \<lparr>frame_data = 0, frame_pts = 0\<rparr>\<rparr>"

text \<open>Two libraries that fail during \<open>initialize\<close>: no stream, and no such codec.\<close>

definition no_stream_open :: "(bool \<times> int list, int list) libav_open" where
  "no_stream_open = scripted_open\<lparr>avformat_new_stream := (\<lambda>m codec. None)\<rparr>"

definition no_codec_open :: "(bool \<times> int list, int list) libav_open" where
  "no_codec_open = scripted_open\<lparr>avcodec_find_encoder_by_name := (\<lambda>name. None)\<rparr>"

text \<open>A session whose codec answers "need more input" once while it is drained.\<close>

definition eagain_session :: "(bool \<times> int list, int list, nat) Encoder" where
  "eagain_session = open_session [AVERROR_EAGAIN, 0, AVERROR_EOF] []"

declare encode_loop.simps [code]

declare flush_loop.simps [code]

section \<open>The drain loops\<close>

lemma stamps_append: "stamps (xs @ ys) = stamps xs @ stamps ys"
  by (induction xs rule: stamps.induct) simp_all

lemma writes_unreffed_append:
  "writes_unreffed xs \<Longrightarrow> writes_unreffed ys \<Longrightarrow> writes_unreffed (xs @ ys)"
  by (induction xs) (auto split: if_splits list.splits)

lemma same_session_refl: "same_session e e"
  by (simp add: same_session_def)

lemma same_session_trans: "same_session a b \<Longrightarrow> same_session b c \<Longrightarrow> same_session a c"
  by (simp add: same_session_def)

lemma relay_packet_crash:
  "packet e = None \<or> codecCtx e = None \<or> stream e = None \<or> formatCtx e = None \<Longrightarrow>
   relay_packet L msg e w = (Crashed, e, w)"
  by (auto simp: relay_packet_def split: option.splits)

lemma relay_packet_run:
  assumes "packet e = Some p" "codecCtx e = Some cc" "stream e = Some st" "formatCtx e = Some fc"
    and "av_interleaved_write_frame L (fc_priv fc)
           ((av_packet_rescale_ts L p (cc_time_base cc) (st_time_base st))\<lparr>stream_index := st_index st\<rparr>)
         = (rw, p3, m1)"
  shows "relay_packet L msg e w =
     ((if rw < 0 then Raised (CxException msg) else Returned rw),
      e\<lparr>formatCtx := Some (fc\<lparr>fc_priv := m1\<rparr>), packet := Some blank_packet\<rparr>,
      w\<lparr>calls := calls w @ [RescaleTs, WriteFrame rw, PacketUnref]\<rparr>)"
  using assms by (simp add: relay_packet_def Let_def log_call_def av_packet_unref_def)

lemma relay_packet_effect:
  assumes "relay_packet L msg e w = (r, e', w')"
  shows "same_session e e' \<and> codecCtx e' = codecCtx e \<and> cerr w' = cerr w \<and>
     ((r = Crashed \<and> e' = e \<and> w' = w \<and> (stream e = None \<or> packet e = None \<or> codecCtx e = None \<or> formatCtx e = None)) \<or>
      (\<exists>rw. calls w' = calls w @ [RescaleTs, WriteFrame rw, PacketUnref]
         \<and> packet e' = Some blank_packet
         \<and> r = (if rw < 0 then Raised (CxException msg) else Returned rw)))"
proof (cases "packet e = None \<or> codecCtx e = None \<or> stream e = None \<or> formatCtx e = None")
  case True
  from relay_packet_crash[OF True, of L msg w] assms
  have "r = Crashed" "e' = e" "w' = w" by simp_all
  with True show ?thesis by (auto simp: same_session_refl)
next
  case False
  then obtain p cc st fc where h: "packet e = Some p" "codecCtx e = Some cc" "stream e = Some st"
    "formatCtx e = Some fc" by auto
  obtain rw p3 m1 where wr: "av_interleaved_write_frame L (fc_priv fc)
           ((av_packet_rescale_ts L p (cc_time_base cc) (st_time_base st))\<lparr>stream_index := st_index st\<rparr>)
         = (rw, p3, m1)" by (cases "av_interleaved_write_frame L (fc_priv fc)
           ((av_packet_rescale_ts L p (cc_time_base cc) (st_time_base st))\<lparr>stream_index := st_index st\<rparr>)") auto
  from relay_packet_run[OF h wr, of msg w] assms
  have r: "r = (if rw < 0 then Raised (CxException msg) else Returned rw)"
    and e': "e' = e\<lparr>formatCtx := Some (fc\<lparr>fc_priv := m1\<rparr>), packet := Some blank_packet\<rparr>"
    and w': "w' = w\<lparr>calls := calls w @ [RescaleTs, WriteFrame rw, PacketUnref]\<rparr>"
    by simp_all
  have "same_session e e'" using h by (simp add: e' same_session_def)
  moreover have "codecCtx e' = codecCtx e" "packet e' = Some blank_packet" by (simp_all add: e')
  moreover have "cerr w' = cerr w" "calls w' = calls w @ [RescaleTs, WriteFrame rw, PacketUnref]"
    by (simp_all add: w')
  ultimately show ?thesis using r by blast
qed

lemma loop_post_refl: "loop_post e w (Returned u) e w"
  by (simp add: loop_post_def same_session_refl)

lemma loop_post_crash:
  "packet e = None \<or> codecCtx e = None \<Longrightarrow> loop_post e w Crashed e w"
  by (auto simp: loop_post_def same_session_refl)

lemma loop_post_recv:
  assumes "codecCtx e = Some cc" "packet e = Some p"
    and "r = (if rc = AVERROR_EAGAIN \<or> rc = AVERROR_EOF then Returned ()
              else Raised (CxException msg))" "rc < 0"
  shows "loop_post e w r (e\<lparr>codecCtx := Some cc', packet := Some p1\<rparr>) (log_call (ReceivePacket rc) w)"
  using assms by (auto simp: loop_post_def same_session_def log_call_def)

lemma loop_post_step:
  assumes "codecCtx e = Some cc" "packet e = Some p" "0 \<le> rc"
    and e1: "e1 = e\<lparr>codecCtx := Some cc', packet := Some p1\<rparr>"
    and w1: "w1 = log_call (ReceivePacket rc) w"
    and rel: "relay_packet L msg e1 w1 = (r2, e2, w2)"
    and rest: "case r2 of Returned rw \<Rightarrow> loop_post e2 w2 r e' w' | Raised x \<Rightarrow> r = Raised x \<and> e' = e2 \<and> w' = w2
               | Crashed \<Rightarrow> r = Crashed \<and> e' = e2 \<and> w' = w2"
  shows "loop_post e w r e' w'"
proof -
  have s1: "same_session e e1" using assms(1,2) by (simp add: e1 same_session_def)
  note eff = relay_packet_effect[OF rel]
  have s2: "same_session e e2" using s1 eff same_session_trans by blast
  have c2: "cerr w2 = cerr w" using eff by (simp add: w1 log_call_def)
  show ?thesis
  proof (cases r2)
    case (Returned rw)
    with eff have cw: "calls w2 = calls w @ [ReceivePacket rc, RescaleTs, WriteFrame rw, PacketUnref]"
      and rw: "0 \<le> rw"
      by (auto simp: w1 log_call_def split: if_splits)
    from Returned rest have lp: "loop_post e2 w2 r e' w'" by simp
    then obtain evs where evs: "calls w' = calls w2 @ evs" "stamps evs = []" "writes_unreffed evs"
        "r = Returned () \<longrightarrow> \<not> list_ex failed evs" "\<forall>x. r = Raised x \<longrightarrow> list_ex failed evs"
        "r = Crashed \<longrightarrow> packet e2 = None \<or> stream e2 = None \<or> codecCtx e2 = None \<or> formatCtx e2 = None"
        "evs = [] \<longrightarrow> e' = e2" "evs \<noteq> [] \<and> last evs = PacketUnref \<longrightarrow> packet e' = Some blank_packet"
      and s3: "same_session e2 e'" and c3: "cerr w' = cerr w2"
      unfolding loop_post_def by blast
    from Returned eff have b2: "packet e2 = Some blank_packet" by (auto split: if_splits)
    let ?evs = "[ReceivePacket rc, RescaleTs, WriteFrame rw, PacketUnref] @ evs"
    have "calls w' = calls w @ ?evs" using evs(1) cw by simp
    moreover have "stamps ?evs = []" using evs(2) by simp
    moreover have "writes_unreffed ?evs" using evs(3) by simp
    moreover have "r = Returned () \<longrightarrow> \<not> list_ex failed ?evs" using evs(4) rw assms(3) by simp
    moreover have "\<forall>x. r = Raised x \<longrightarrow> list_ex failed ?evs" using evs(5) by simp
    moreover have "r = Crashed \<longrightarrow> packet e = None \<or> stream e = None \<or> codecCtx e = None \<or> formatCtx e = None"
      using evs(6) s2 by (auto simp: same_session_def)
    moreover have "same_session e e'" using s2 s3 same_session_trans by blast
    moreover have "cerr w' = cerr w" using c2 c3 by simp
    moreover have "?evs \<noteq> []" by simp
    moreover have "last ?evs = PacketUnref \<longrightarrow> packet e' = Some blank_packet"
      using evs(7,8) b2 by (cases "evs = []") simp_all
    ultimately show ?thesis unfolding loop_post_def by blast
  next
    case (Raised x)
    with rest have r: "r = Raised x" "e' = e2" "w' = w2" by simp_all
    from Raised eff obtain rw where cw: "calls w2 = calls w @ [ReceivePacket rc, RescaleTs, WriteFrame rw, PacketUnref]"
      and rw: "rw < 0" and b2: "packet e2 = Some blank_packet"
      by (auto simp: w1 log_call_def split: if_splits)
    let ?evs = "[ReceivePacket rc, RescaleTs, WriteFrame rw, PacketUnref]"
    have "calls w' = calls w @ ?evs" "stamps ?evs = []" "writes_unreffed ?evs" "list_ex failed ?evs"
      "?evs \<noteq> []" "packet e' = Some blank_packet"
      using cw rw r b2 by simp_all
    then show ?thesis unfolding loop_post_def using r s2 c2 by blast
  next
    case Crashed
    with rest have r: "r = Crashed" "e' = e2" "w' = w2" by simp_all
    from Crashed eff have u: "e2 = e1" "w2 = w1" "stream e1 = None \<or> packet e1 = None \<or> codecCtx e1 = None \<or> formatCtx e1 = None"
      by (auto split: if_splits)
    have "stream e = None \<or> formatCtx e = None" using u(3) by (auto simp: e1)
    moreover have "calls w' = calls w @ [ReceivePacket rc]" "stamps [ReceivePacket rc] = []"
      "writes_unreffed [ReceivePacket rc]" "[ReceivePacket rc] \<noteq> []"
      "last [ReceivePacket rc] \<noteq> PacketUnref"
      using r u by (simp_all add: w1 log_call_def)
    ultimately show ?thesis unfolding loop_post_def using r s2 c2 by blast
  qed
qed

lemma loop_post_again:
  assumes "codecCtx e = Some cc" "packet e = Some p"
    and "loop_post (e\<lparr>codecCtx := Some cc', packet := Some p1\<rparr>)
           (log_call (ReceivePacket AVERROR_EAGAIN) w) r e' w'"
  shows "loop_post e w r e' w'"
proof -
  let ?e1 = "e\<lparr>codecCtx := Some cc', packet := Some p1\<rparr>"
  let ?w1 = "log_call (ReceivePacket AVERROR_EAGAIN) w"
  have s1: "same_session e ?e1" using assms(1,2) by (simp add: same_session_def)
  from assms(3) obtain evs where evs: "calls w' = calls ?w1 @ evs" "stamps evs = []"
      "writes_unreffed evs" "r = Returned () \<longrightarrow> \<not> list_ex failed evs"
      "\<forall>x. r = Raised x \<longrightarrow> list_ex failed evs"
      "r = Crashed \<longrightarrow> packet ?e1 = None \<or> stream ?e1 = None \<or> codecCtx ?e1 = None \<or> formatCtx ?e1 = None"
      "evs = [] \<longrightarrow> e' = ?e1" "evs \<noteq> [] \<and> last evs = PacketUnref \<longrightarrow> packet e' = Some blank_packet"
    and s3: "same_session ?e1 e'" and c3: "cerr w' = cerr ?w1"
    unfolding loop_post_def by blast
  let ?evs = "ReceivePacket AVERROR_EAGAIN # evs"
  have "calls w' = calls w @ ?evs" using evs(1) by (simp add: log_call_def)
  moreover have "stamps ?evs = []" "writes_unreffed ?evs" using evs(2,3) by simp_all
  moreover have "r = Returned () \<longrightarrow> \<not> list_ex failed ?evs" using evs(4) by simp
  moreover have "\<forall>x. r = Raised x \<longrightarrow> list_ex failed ?evs" using evs(5) by simp
  moreover have "r = Crashed \<longrightarrow> packet e = None \<or> stream e = None \<or> codecCtx e = None \<or> formatCtx e = None"
    using evs(6) by auto
  moreover have "same_session e e'" using s1 s3 same_session_trans by blast
  moreover have "cerr w' = cerr w" using c3 by (simp add: log_call_def)
  moreover have "?evs \<noteq> []" by simp
  moreover have "last ?evs = PacketUnref \<longrightarrow> packet e' = Some blank_packet"
    using evs(8) by (cases "evs = []") simp_all
  ultimately show ?thesis unfolding loop_post_def by blast
qed

lemma encode_loop_post_aux:
  assumes "encode_loop L ret e w = Some y"
  shows "loop_post e w (fst y) (fst (snd y)) (snd (snd y))"
  using assms
proof (induct L ret e w y rule: encode_loop.raw_induct[rotated 1, consumes 1])
  case (1 f L ret e w y)
  note IH = 1(1) and eq = 1(2)
  show ?case
  proof (cases "0 \<le> ret")
    case False
    with eq have y: "y = (Returned (), e, w)" by simp
    show ?thesis unfolding y fst_conv snd_conv by (rule loop_post_refl)
  next
    case True
    show ?thesis
    proof (cases "codecCtx e = None \<or> packet e = None")
      case True
      with \<open>0 \<le> ret\<close> eq have y: "y = (Crashed, e, w)" by (auto split: option.splits)
      show ?thesis unfolding y fst_conv snd_conv
        using True by (auto intro: loop_post_crash)
    next
      case False
      then obtain cc p where h: "codecCtx e = Some cc" "packet e = Some p" by auto
      obtain rc p1 c1 where recv: "avcodec_receive_packet L (cc_priv cc) p = (rc, p1, c1)"
        by (metis prod_cases3)
      define e1 where "e1 = e\<lparr>codecCtx := Some (cc\<lparr>cc_priv := c1\<rparr>), packet := Some p1\<rparr>"
      define w1 where "w1 = log_call (ReceivePacket rc) w"
      show ?thesis
      proof (cases "rc < 0")
        case True
        with \<open>0 \<le> ret\<close> eq h recv
        have y: "y = ((if rc = AVERROR_EAGAIN \<or> rc = AVERROR_EOF then Returned ()
                      else Raised (CxException ''Error during encoding'')), e1, w1)"
          by (auto simp: e1_def w1_def Let_def split: if_splits)
        show ?thesis unfolding y fst_conv snd_conv e1_def w1_def
          by (rule loop_post_recv[OF h refl True])
      next
        case False
        then have nn: "0 \<le> rc" "rc \<noteq> AVERROR_EAGAIN" "rc \<noteq> AVERROR_EOF"
          by (auto simp: AVERROR_EAGAIN_def AVERROR_EOF_def)
        obtain r2 e2 w2 where rel: "relay_packet L ''Error writing packet to output file'' e1 w1 = (r2, e2, w2)"
          by (metis prod_cases3)
        from \<open>0 \<le> ret\<close> eq h recv nn rel
        have eq2: "(case r2 of Returned r2' \<Rightarrow> f L r2' e2 w2 | Raised x \<Rightarrow> Some (Raised x, e2, w2)
                    | Crashed \<Rightarrow> Some (Crashed, e2, w2)) = Some y"
          by (auto simp: e1_def w1_def Let_def split: if_splits)
        have "case r2 of Returned rw \<Rightarrow> loop_post e2 w2 (fst y) (fst (snd y)) (snd (snd y))
               | Raised x \<Rightarrow> fst y = Raised x \<and> fst (snd y) = e2 \<and> snd (snd y) = w2
               | Crashed \<Rightarrow> fst y = Crashed \<and> fst (snd y) = e2 \<and> snd (snd y) = w2"
          using eq2 IH by (cases r2) auto
        from loop_post_step[OF h nn(1) e1_def w1_def rel this] show ?thesis .
      qed
    qed
  qed
qed

lemma encode_loop_post:
  "encode_loop L ret e w = Some (r, e', w') \<Longrightarrow> loop_post e w r e' w'"
  using encode_loop_post_aux by fastforce

lemma flush_loop_post_aux:
  assumes "flush_loop L ret e w = Some y"
  shows "loop_post e w (fst y) (fst (snd y)) (snd (snd y))"
  using assms
proof (induct L ret e w y rule: flush_loop.raw_induct[rotated 1, consumes 1])
  case (1 f L ret e w y)
  note IH = 1(1) and eq = 1(2)
  show ?case
  proof (cases "0 \<le> ret")
    case False
    with eq have y: "y = (Returned (), e, w)" by simp
    show ?thesis unfolding y fst_conv snd_conv by (rule loop_post_refl)
  next
    case True
    show ?thesis
    proof (cases "codecCtx e = None \<or> packet e = None")
      case True
      with \<open>0 \<le> ret\<close> eq have y: "y = (Crashed, e, w)" by (auto split: option.splits)
      show ?thesis unfolding y fst_conv snd_conv
        using True by (auto intro: loop_post_crash)
    next
      case False
      then obtain cc p where h: "codecCtx e = Some cc" "packet e = Some p" by auto
      obtain rc p1 c1 where recv: "avcodec_receive_packet L (cc_priv cc) p = (rc, p1, c1)"
        by (metis prod_cases3)
      define e1 where "e1 = e\<lparr>codecCtx := Some (cc\<lparr>cc_priv := c1\<rparr>), packet := Some p1\<rparr>"
      define w1 where "w1 = log_call (ReceivePacket rc) w"
      consider (again) "rc = AVERROR_EAGAIN" | (stop) "rc < 0" "rc \<noteq> AVERROR_EAGAIN" | (pkt) "0 \<le> rc"
        by linarith
      then show ?thesis
      proof cases
        case again
        then have "rc \<noteq> AVERROR_EOF" by (simp add: AVERROR_EAGAIN_def AVERROR_EOF_def)
        with \<open>0 \<le> ret\<close> eq h recv again have "f L AVERROR_EAGAIN e1 w1 = Some y"
          by (auto simp: e1_def w1_def Let_def split: if_splits)
        from IH[OF this] show ?thesis unfolding e1_def w1_def again
          by (rule loop_post_again[OF h])
      next
        case stop
        with \<open>0 \<le> ret\<close> eq h recv
        have y: "y = ((if rc = AVERROR_EAGAIN \<or> rc = AVERROR_EOF then Returned ()
                      else Raised (CxException ''Error during encoding flush'')), e1, w1)"
          by (auto simp: e1_def w1_def Let_def split: if_splits)
        show ?thesis unfolding y fst_conv snd_conv e1_def w1_def
          by (rule loop_post_recv[OF h refl stop(1)])
      next
        case pkt
        then have nn: "0 \<le> rc" "rc \<noteq> AVERROR_EAGAIN" "rc \<noteq> AVERROR_EOF"
          by (auto simp: AVERROR_EAGAIN_def AVERROR_EOF_def)
        obtain r2 e2 w2 where rel: "relay_packet L ''Error writing flushed packet to output file'' e1 w1 = (r2, e2, w2)"
          by (metis prod_cases3)
        from \<open>0 \<le> ret\<close> eq h recv nn rel
        have eq2: "(case r2 of Returned r2' \<Rightarrow> f L r2' e2 w2 | Raised x \<Rightarrow> Some (Raised x, e2, w2)
                    | Crashed \<Rightarrow> Some (Crashed, e2, w2)) = Some y"
          by (auto simp: e1_def w1_def Let_def split: if_splits)
        have "case r2 of Returned rw \<Rightarrow> loop_post e2 w2 (fst y) (fst (snd y)) (snd (snd y))
               | Raised x \<Rightarrow> fst y = Raised x \<and> fst (snd y) = e2 \<and> snd (snd y) = w2
               | Crashed \<Rightarrow> fst y = Crashed \<and> fst (snd y) = e2 \<and> snd (snd y) = w2"
          using eq2 IH by (cases r2) auto
        from loop_post_step[OF h nn(1) e1_def w1_def rel this] show ?thesis .
      qed
    qed
  qed
qed

lemma flush_loop_post:
  "flush_loop L ret e w = Some (r, e', w') \<Longrightarrow> loop_post e w r e' w'"
  using flush_loop_post_aux by fastforce

lemma encode_loop_stop: "ret < 0 \<Longrightarrow> encode_loop L ret e w = Some (Returned (), e, w)"
  by (subst encode_loop.simps) simp

lemma flush_loop_stop: "ret < 0 \<Longrightarrow> flush_loop L ret e w = Some (Returned (), e, w)"
  by (subst flush_loop.simps) simp

lemma encode_loop_returns:
  assumes "dry_within n L (cc_priv cc) p" "codecCtx e = Some cc" "packet e = Some p"
  shows "\<exists>y. encode_loop L ret e w = Some y"
  using assms
proof (induction n arbitrary: e w ret cc p)
  case 0
  then show ?case by simp
next
  case (Suc n)
  note h = Suc.prems(2,3)
  show ?case
  proof (cases "0 \<le> ret")
    case False
    then show ?thesis by (simp add: encode_loop_stop)
  next
    case True
    obtain rc p1 c1 where recv: "avcodec_receive_packet L (cc_priv cc) p = (rc, p1, c1)"
      by (metis prod_cases3)
    define e1 where "e1 = e\<lparr>codecCtx := Some (cc\<lparr>cc_priv := c1\<rparr>), packet := Some p1\<rparr>"
    define w1 where "w1 = log_call (ReceivePacket rc) w"
    show ?thesis
    proof (cases "rc < 0")
      case True
      with \<open>0 \<le> ret\<close> h recv show ?thesis
        by (subst encode_loop.simps) (simp add: Let_def)
    next
      case False
      then have nn: "0 \<le> rc" "rc \<noteq> AVERROR_EAGAIN" "rc \<noteq> AVERROR_EOF"
        by (auto simp: AVERROR_EAGAIN_def AVERROR_EOF_def)
      from Suc.prems(1) recv False have dry: "dry_within n L c1 blank_packet" by simp
      obtain r2 e2 w2 where rel:
        "relay_packet L ''Error writing packet to output file'' e1 w1 = (r2, e2, w2)"
        by (metis prod_cases3)
      note eff = relay_packet_effect[OF rel]
      have step: "encode_loop L ret e w =
          (case r2 of Returned r2' \<Rightarrow> encode_loop L r2' e2 w2 | Raised x \<Rightarrow> Some (Raised x, e2, w2)
                    | Crashed \<Rightarrow> Some (Crashed, e2, w2))"
        using \<open>0 \<le> ret\<close> h recv nn rel
        by (subst encode_loop.simps) (simp add: Let_def e1_def w1_def split: outcome.splits)
      show ?thesis
      proof (cases r2)
        case (Returned rw)
        with eff have "packet e2 = Some blank_packet" "codecCtx e2 = Some (cc\<lparr>cc_priv := c1\<rparr>)"
          by (auto simp: e1_def split: if_splits)
        from Suc.IH[of "cc\<lparr>cc_priv := c1\<rparr>" blank_packet e2 rw w2] dry this
        obtain y where "encode_loop L rw e2 w2 = Some y" by auto
        with step Returned have "encode_loop L ret e w = Some y" by simp
        then show ?thesis by (rule exI)
      qed (simp_all add: step)
    qed
  qed
qed

lemma flush_loop_returns:
  assumes "dry_within n L (cc_priv cc) p" "codecCtx e = Some cc" "packet e = Some p"
  shows "\<exists>y. flush_loop L ret e w = Some y"
  using assms
proof (induction n arbitrary: e w ret cc p)
  case 0
  then show ?case by simp
next
  case (Suc n)
  note h = Suc.prems(2,3)
  show ?case
  proof (cases "0 \<le> ret")
    case False
    then show ?thesis by (simp add: flush_loop_stop)
  next
    case True
    obtain rc p1 c1 where recv: "avcodec_receive_packet L (cc_priv cc) p = (rc, p1, c1)"
      by (metis prod_cases3)
    define e1 where "e1 = e\<lparr>codecCtx := Some (cc\<lparr>cc_priv := c1\<rparr>), packet := Some p1\<rparr>"
    define w1 where "w1 = log_call (ReceivePacket rc) w"
    show ?thesis
    proof (cases "rc < 0")
      case True
      with \<open>0 \<le> ret\<close> h recv show ?thesis
        by (subst flush_loop.simps) (simp add: Let_def flush_loop_stop)
    next
      case False
      then have nn: "0 \<le> rc" "rc \<noteq> AVERROR_EAGAIN" "rc \<noteq> AVERROR_EOF"
        by (auto simp: AVERROR_EAGAIN_def AVERROR_EOF_def)
      from Suc.prems(1) recv False have dry: "dry_within n L c1 blank_packet" by simp
      obtain r2 e2 w2 where rel:
        "relay_packet L ''Error writing flushed packet to output file'' e1 w1 = (r2, e2, w2)"
        by (metis prod_cases3)
      note eff = relay_packet_effect[OF rel]
      have step: "flush_loop L ret e w =
          (case r2 of Returned r2' \<Rightarrow> flush_loop L r2' e2 w2 | Raised x \<Rightarrow> Some (Raised x, e2, w2)
                    | Crashed \<Rightarrow> Some (Crashed, e2, w2))"
        using \<open>0 \<le> ret\<close> h recv nn rel
        by (subst flush_loop.simps) (simp add: Let_def e1_def w1_def split: outcome.splits)
      show ?thesis
      proof (cases r2)
        case (Returned rw)
        with eff have "packet e2 = Some blank_packet" "codecCtx e2 = Some (cc\<lparr>cc_priv := c1\<rparr>)"
          by (auto simp: e1_def split: if_splits)
        from Suc.IH[of "cc\<lparr>cc_priv := c1\<rparr>" blank_packet e2 rw w2] dry this
        obtain y where "flush_loop L rw e2 w2 = Some y" by auto
        with step Returned have "flush_loop L ret e w = Some y" by simp
        then show ?thesis by (rule exI)
      qed (simp_all add: step)
    qed
  qed
qed

lemma same_session_isOpen: "same_session e e' \<Longrightarrow> isOpen e' = isOpen e"
  by (simp add: same_session_def isOpen_def)

lemma encodeFrame_try_effect:
  assumes run: "encodeFrame_try L e w buffer = Some (r, e', w')"
  shows "cerr w' = cerr w \<and>
     (\<exists>evs. call_post e w e' w' evs \<and>
        (r = Returned () \<longrightarrow> isOpen e \<and> \<not> list_ex failed evs \<and> stamps evs = [pts e]) \<and>
        (\<forall>x. r = Raised x \<longrightarrow> \<not> isOpen e \<or> list_ex failed evs) \<and>
        (r = Crashed \<longrightarrow> isOpen e \<and> (converter e = None \<or> packet e = None \<or> stream e = None)))"
proof (cases "isOpen e")
  case False
  with run have "r = Raised (CxException ''Encoder is not open'')" "e' = e" "w' = w"
    by (simp_all add: encodeFrame_try_def)
  with False have "call_post e w e' w' []" by (simp add: call_post_def)
  with False \<open>r = _\<close> \<open>w' = w\<close> show ?thesis by auto
next
  case True
  then obtain cc fc where ctx: "codecCtx e = Some cc" "formatCtx e = Some fc"
    by (auto simp: isOpen_def)
  show ?thesis
  proof (cases "converter e")
    case None
    with True run have "r = Crashed" "e' = e" "w' = w" by (simp_all add: encodeFrame_try_def)
    with True have "call_post e w e' w' []" by (simp add: call_post_def)
    with True None \<open>r = _\<close> \<open>w' = w\<close> show ?thesis by auto
  next
    case (Some conv)
    obtain ok d where cv: "conv (frame_data (frame e)) buffer = (ok, d)" by (cases "conv (frame_data (frame e)) buffer") auto
    define e1 where "e1 = e\<lparr>frame := (frame e)\<lparr>frame_data := d\<rparr>\<rparr>"
    define w1 where "w1 = log_call (Convert ok) w"
    show ?thesis
    proof (cases ok)
      case False
      with True Some cv run have res: "r = Raised (CxException ''Error converting frame'')" "e' = e1" "w' = w1"
        by (simp_all add: encodeFrame_try_def e1_def w1_def Let_def)
      have "call_post e w e' w' [Convert False]"
        using False by (simp add: call_post_def res e1_def w1_def log_call_def isOpen_def)
      moreover have "list_ex failed [Convert False]" by simp
      moreover have "cerr w' = cerr w" by (simp add: res w1_def log_call_def)
      ultimately show ?thesis using res(1) by blast
    next
      case ok: True
      let ?fr = "(frame e)\<lparr>frame_data := d, frame_pts := pts e\<rparr>"
      obtain ret c1 where snd: "avcodec_send_frame L (cc_priv cc) (Some ?fr) = (ret, c1)"
        by (cases "avcodec_send_frame L (cc_priv cc) (Some ?fr)") auto
      define e3 where "e3 = e\<lparr>frame := ?fr, pts := pts e + 1, codecCtx := Some (cc\<lparr>cc_priv := c1\<rparr>)\<rparr>"
      define w2 where "w2 = w\<lparr>calls := calls w @ [Convert True, SendFrame (Some (pts e)) ret]\<rparr>"
      have "encodeFrame_try L e w buffer =
             (if ret < 0 then Some (Raised (CxException (''error sending frame to encoder'' @ errorToString L ret)), e3, w2)
                   else encode_loop L ret e3 w2)"
        using True Some cv ok ctx snd
        by (simp add: encodeFrame_try_def Let_def log_call_def e3_def w2_def)
      with run have run2: "(if ret < 0 then Some (Raised (CxException (''error sending frame to encoder'' @ errorToString L ret)), e3, w2)
                   else encode_loop L ret e3 w2) = Some (r, e', w')"
        by simp
      have w2c: "calls w2 = calls w @ [Convert True, SendFrame (Some (pts e)) ret]" "cerr w2 = cerr w"
        by (simp_all add: w2_def)
      have e3p: "pts e3 = pts e + 1" "isOpen e3" "packet e3 = packet e" "stream e3 = stream e"
        "codecCtx e3 \<noteq> None" "formatCtx e3 \<noteq> None" "converter e3 = converter e"
        using ctx by (simp_all add: e3_def isOpen_def)
      show ?thesis
      proof (cases "ret < 0")
        case True
        with run2 have res: "r = Raised (CxException (''error sending frame to encoder'' @ errorToString L ret))"
          "e' = e3" "w' = w2" by simp_all
        let ?evs = "[Convert True, SendFrame (Some (pts e)) ret]"
        have "call_post e w e' w' ?evs"
          using e3p \<open>isOpen e\<close> by (simp add: call_post_def res w2c)
        moreover have "list_ex failed ?evs" using True by simp
        ultimately show ?thesis using res(1) w2c(2) res(3) by blast
      next
        case False
        with run2 have "encode_loop L ret e3 w2 = Some (r, e', w')" by simp
        from encode_loop_post[OF this] obtain evs where
          lp: "same_session e3 e'" "cerr w' = cerr w2" "calls w' = calls w2 @ evs" "stamps evs = []"
            "writes_unreffed evs" "r = Returned () \<longrightarrow> \<not> list_ex failed evs"
            "\<forall>x. r = Raised x \<longrightarrow> list_ex failed evs"
            "r = Crashed \<longrightarrow> packet e3 = None \<or> stream e3 = None \<or> codecCtx e3 = None \<or> formatCtx e3 = None"
            "evs = [] \<longrightarrow> e' = e3" "evs \<noteq> [] \<and> last evs = PacketUnref \<longrightarrow> packet e' = Some blank_packet"
          unfolding loop_post_def by blast
        let ?evs = "[Convert True, SendFrame (Some (pts e)) ret] @ evs"
        have "isOpen e' = isOpen e" using same_session_isOpen[OF lp(1)] e3p(2) \<open>isOpen e\<close> by simp
        moreover have "calls w' = calls w @ ?evs" using lp(3) w2c(1) by simp
        moreover have "writes_unreffed ?evs" using lp(5) by simp
        moreover have "stamps ?evs = [pts e]" using lp(4) by simp
        moreover have "pts e' = pts e + 1" using lp(1) e3p(1) by (simp add: same_session_def)
        moreover have "?evs \<noteq> [] \<and> last ?evs = PacketUnref \<longrightarrow> packet e' = Some blank_packet"
          using lp(10) by (cases "evs = []") simp_all
        moreover have "converter e' = converter e" "stream e' = stream e"
          "packet e' = None \<longleftrightarrow> packet e = None"
          using lp(1) e3p by (simp_all add: same_session_def)
        ultimately have cp: "call_post e w e' w' ?evs" unfolding call_post_def by blast
        have "r = Returned () \<longrightarrow> \<not> list_ex failed ?evs" using lp(6) False by simp
        moreover have "\<forall>x. r = Raised x \<longrightarrow> list_ex failed ?evs" using lp(7) by simp
        moreover have "r = Crashed \<longrightarrow> packet e = None \<or> stream e = None"
          using lp(8) e3p by auto
        moreover have "cerr w' = cerr w" using lp(2) w2c(2) by simp
        ultimately show ?thesis using cp \<open>isOpen e\<close> \<open>stamps ?evs = [pts e]\<close> by blast
      qed
    qed
  qed
qed

lemma encodeFrame_effect:
  assumes run: "encodeFrame L e w buffer = Some (r, e', w')"
  shows "\<exists>evs. call_post e w e' w' evs \<and> (\<forall>x. r \<noteq> Raised x) \<and>
        (r = Returned True \<longrightarrow>
           isOpen e \<and> \<not> list_ex failed evs \<and> stamps evs = [pts e] \<and> cerr w' = cerr w) \<and>
        (r = Returned False \<longrightarrow>
           (\<not> isOpen e \<or> list_ex failed evs) \<and>
           (\<exists>x. cerr w' = cerr w @ [''Error in Write Frame: '' @ what x])) \<and>
        (r = Crashed \<longrightarrow> isOpen e \<and> (converter e = None \<or> packet e = None \<or> stream e = None))"
proof -
  from run obtain r0 e0 w0 where tr0: "encodeFrame_try L e w buffer = Some (r0, e0, w0)"
    by (auto simp: encodeFrame_def split: option.splits)
  from encodeFrame_try_effect[OF tr0] obtain evs where
    eff: "cerr w0 = cerr w" "call_post e w e0 w0 evs"
      "r0 = Returned () \<longrightarrow> isOpen e \<and> \<not> list_ex failed evs \<and> stamps evs = [pts e]"
      "\<forall>x. r0 = Raised x \<longrightarrow> \<not> isOpen e \<or> list_ex failed evs"
      "r0 = Crashed \<longrightarrow> isOpen e \<and> (converter e = None \<or> packet e = None \<or> stream e = None)"
    by blast
  show ?thesis
  proof (cases r0)
    case (Returned u)
    with run tr0 have res: "r = Returned True" "e' = e0" "w' = w0" by (simp_all add: encodeFrame_def)
    with eff Returned show ?thesis by auto
  next
    case (Raised x)
    with run tr0 have res: "r = Returned False" "e' = e0"
      "w' = w0\<lparr>cerr := cerr w0 @ [''Error in Write Frame: '' @ what x]\<rparr>"
      by (simp_all add: encodeFrame_def)
    have "call_post e w e' w' evs" using eff(2) by (simp add: call_post_def res)
    moreover have "cerr w' = cerr w @ [''Error in Write Frame: '' @ what x]"
      using eff(1) by (simp add: res)
    ultimately show ?thesis using eff(4) Raised res(1) by blast
  next
    case Crashed
    with run tr0 have res: "r = Crashed" "e' = e0" "w' = w0" by (simp_all add: encodeFrame_def)
    with eff Crashed show ?thesis by auto
  qed
qed

lemma encode_loop_total:
  assumes "always_drains L"
  shows "\<exists>y. encode_loop L ret e w = Some y"
proof (cases "codecCtx e = None \<or> packet e = None")
  case True
  then show ?thesis by (subst encode_loop.simps) (auto split: option.splits)
next
  case False
  then obtain cc p where h: "codecCtx e = Some cc" "packet e = Some p" by auto
  from assms obtain n where "dry_within n L (cc_priv cc) p" unfolding always_drains_def by blast
  from encode_loop_returns[OF this h] show ?thesis .
qed

lemma flush_loop_total:
  assumes "always_drains L"
  shows "\<exists>y. flush_loop L ret e w = Some y"
proof (cases "codecCtx e = None \<or> packet e = None")
  case True
  then show ?thesis by (subst flush_loop.simps) (auto split: option.splits)
next
  case False
  then obtain cc p where h: "codecCtx e = Some cc" "packet e = Some p" by auto
  from assms obtain n where "dry_within n L (cc_priv cc) p" unfolding always_drains_def by blast
  from flush_loop_returns[OF this h] show ?thesis .
qed

lemma encodeFrame_try_returns:
  assumes "always_drains L"
  shows "\<exists>y. encodeFrame_try L e w buffer = Some y"
  using encode_loop_total[OF assms]
  by (simp add: encodeFrame_try_def Let_def split: option.splits prod.splits)

lemma encodeFrame_returns:
  assumes "always_drains L"
  shows "\<exists>y. encodeFrame L e w buffer = Some y"
proof -
  from encodeFrame_try_returns[OF assms] obtain r0 e0 w0
    where "encodeFrame_try L e w buffer = Some (r0, e0, w0)" by (metis prod_cases3)
  then show ?thesis by (cases r0) (simp_all add: encodeFrame_def)
qed

lemma write_trailer_effect:
  assumes "write_trailer L e w = (r, e', w')"
  shows "same_session e e' \<and> cerr w' = cerr w \<and>
     ((r = Crashed \<and> formatCtx e = None \<and> e' = e \<and> w' = w) \<or>
      (\<exists>rt. calls w' = calls w @ [WriteTrailer rt] \<and> packet e' = packet e \<and>
         r = (if rt < 0 then Raised (CxException ''Error writing trailer to output file'')
              else Returned True)))"
proof (cases "formatCtx e")
  case None
  with assms show ?thesis by (simp add: write_trailer_def same_session_refl)
next
  case (Some fc)
  obtain rt m1 where tr: "av_write_trailer L (fc_priv fc) = (rt, m1)"
    by (cases "av_write_trailer L (fc_priv fc)") auto
  have "write_trailer L e w = ((if rt < 0 then Raised (CxException ''Error writing trailer to output file'')
              else Returned True), e\<lparr>formatCtx := Some (fc\<lparr>fc_priv := m1\<rparr>)\<rparr>,
              w\<lparr>calls := calls w @ [WriteTrailer rt]\<rparr>)"
    using Some tr by (simp add: write_trailer_def Let_def log_call_def)
  with assms have res: "r = (if rt < 0 then Raised (CxException ''Error writing trailer to output file'')
              else Returned True)" "e' = e\<lparr>formatCtx := Some (fc\<lparr>fc_priv := m1\<rparr>)\<rparr>"
      "w' = w\<lparr>calls := calls w @ [WriteTrailer rt]\<rparr>" by simp_all
  have "same_session e e'" using Some by (simp add: res same_session_def)
  moreover have "cerr w' = cerr w" "calls w' = calls w @ [WriteTrailer rt]" "packet e' = packet e"
    by (simp_all add: res)
  ultimately show ?thesis using res(1) by blast
qed

section \<open>\<open>initialize\<close> and \<open>finalize\<close>\<close>

lemma stamps_log_free:
  "stamps (calls (log_free ptr ev w)) =
     (if ptr = None then stamps (calls w) else stamps (calls w @ [ev]))"
  by (simp add: log_free_def log_call_def)

lemma openFile_effect:
  assumes "openFile I e w outputPath props = (r, e', w')"
  shows "pts e' = pts e \<and> codecCtx e' = codecCtx e \<and> packet e' = packet e
     \<and> converter e' = converter e \<and> cerr w' = cerr w
     \<and> (\<exists>evs. calls w' = calls w @ evs \<and> set evs \<subseteq> {FreeFormat, FreeCodec})
     \<and> (formatCtx e \<noteq> None \<longrightarrow> formatCtx e' \<noteq> None)
     \<and> ((r = Returned () \<and> formatCtx e' \<noteq> None)
        \<or> (\<exists>x. r = Raised x \<and> raised_before_codec outputPath props x))"
  using assms
  by (auto simp: openFile_def Let_def log_free_def log_call_def
      split: option.splits prod.splits if_splits)

lemma initCodecContext_effect:
  assumes "initCodecContext I e w codec props = (r, e', w')"
  shows "pts e' = pts e \<and> formatCtx e' = formatCtx e \<and> packet e' = packet e
     \<and> converter e' = converter e \<and> cerr w' = cerr w
     \<and> (\<exists>evs. calls w' = calls w @ evs \<and> set evs \<subseteq> {FreeFormat, FreeCodec})
     \<and> (codecCtx e \<noteq> None \<longrightarrow> codecCtx e' \<noteq> None)
     \<and> ((r = Returned () \<and> codecCtx e' \<noteq> None)
        \<or> (r = Raised (CxException ''Could not allocate codec context'') \<and> codecCtx e' = codecCtx e)
        \<or> (\<exists>c. r = Raised (CxErrorCode c) \<and> c < 0 \<and> codecCtx e' \<noteq> None))"
  using assms
  by (auto simp: initCodecContext_def Let_def log_free_def log_call_def FF_CHECK_def
      split: option.splits prod.splits if_splits)

lemma stamps_frees: "set evs \<subseteq> {FreeFormat, FreeCodec} \<Longrightarrow> stamps evs = []"
  by (induction evs) auto

lemma initialize_effect:
  assumes run: "initialize I e w outputPath props = (r, e', w')"
  shows "pts e' = pts e \<and> packet e' = packet e \<and> converter e' = converter e
     \<and> cerr w' = cerr w \<and> stamps (calls w') = stamps (calls w)
     \<and> (isOpen e \<longrightarrow> isOpen e')
     \<and> ((r = Returned () \<and> isOpen e' \<and> stream e' \<noteq> None)
        \<or> (\<exists>x. r = Raised x \<and> raised_before_codec outputPath props x
               \<and> codecCtx e' = codecCtx e)
        \<or> (\<exists>x. r = Raised x \<and> raised_after_codec x \<and> isOpen e'))"
proof -
  obtain r1 e1 w1 where of: "openFile I (e\<lparr>properties := Some props\<rparr>) w outputPath props = (r1, e1, w1)"
    by (metis prod_cases3)
  from openFile_effect[OF of] obtain evs1 where
    o: "pts e1 = pts e" "codecCtx e1 = codecCtx e" "packet e1 = packet e" "converter e1 = converter e"
      "cerr w1 = cerr w" "calls w1 = calls w @ evs1" "set evs1 \<subseteq> {FreeFormat, FreeCodec}"
      "formatCtx e \<noteq> None \<longrightarrow> formatCtx e1 \<noteq> None"
      "(r1 = Returned () \<and> formatCtx e1 \<noteq> None)
        \<or> (\<exists>x. r1 = Raised x \<and> raised_before_codec outputPath props x)"
    by auto
  have st1: "stamps (calls w1) = stamps (calls w)"
    using o(6,7) by (simp add: stamps_append stamps_frees)
  have op1: "isOpen e \<longrightarrow> isOpen e1" using o(2,8) by (simp add: isOpen_def)
  show ?thesis
  proof (cases "r1 = Returned ()")
    case False
    with o(9) obtain x where x: "r1 = Raised x" "raised_before_codec outputPath props x" by auto
    with run of have "r = Raised x" "e' = e1" "w' = w1" by (simp_all add: initialize_def)
    with o st1 op1 x show ?thesis by auto
  next
    case True
    with o(9) have fc1: "formatCtx e1 \<noteq> None" by auto
    show ?thesis
    proof (cases "avcodec_find_encoder_by_name I (codecName props)")
      case None
      with run of True have "r = Raised (CxException (''Encoder not found: '' @ codecName props))"
        "e' = e1" "w' = w1" by (simp_all add: initialize_def initHWAccel_def)
      with o st1 op1 show ?thesis by auto
    next
      case (Some codec)
      obtain r2 e2 w2 where ic: "initCodecContext I e1 w1 codec props = (r2, e2, w2)"
        by (metis prod_cases3)
      from initCodecContext_effect[OF ic] obtain evs2 where
        c: "pts e2 = pts e1" "formatCtx e2 = formatCtx e1" "packet e2 = packet e1"
          "converter e2 = converter e1" "cerr w2 = cerr w1" "calls w2 = calls w1 @ evs2"
          "set evs2 \<subseteq> {FreeFormat, FreeCodec}" "codecCtx e1 \<noteq> None \<longrightarrow> codecCtx e2 \<noteq> None"
          "(r2 = Returned () \<and> codecCtx e2 \<noteq> None)
           \<or> (r2 = Raised (CxException ''Could not allocate codec context'') \<and> codecCtx e2 = codecCtx e1)
           \<or> (\<exists>c. r2 = Raised (CxErrorCode c) \<and> c < 0 \<and> codecCtx e2 \<noteq> None)"
        by auto
      have st2: "stamps (calls w2) = stamps (calls w)"
        using c(6,7) st1 by (simp add: stamps_append stamps_frees)
      have op2: "isOpen e \<longrightarrow> isOpen e2" using op1 c(2,8) by (simp add: isOpen_def)
      have base: "pts e2 = pts e" "packet e2 = packet e" "converter e2 = converter e" "cerr w2 = cerr w"
        using o c by simp_all
      show ?thesis
      proof (cases "r2 = Returned ()")
        case False
        then obtain x where x: "r2 = Raised x" using c(9) by auto
        with run of True Some ic have res: "r = Raised x" "e' = e2" "w' = w2"
          by (simp_all add: initialize_def initHWAccel_def)
        from c(9) x consider
            "x = CxException ''Could not allocate codec context''" "codecCtx e2 = codecCtx e1"
          | cc where "x = CxErrorCode cc" "cc < 0" "codecCtx e2 \<noteq> None" by auto
        then show ?thesis
        proof cases
          case 1
          with res base st2 op2 o(2) show ?thesis by auto
        next
          case 2
          then have "isOpen e2" using fc1 c(2) by (simp add: isOpen_def)
          with 2 res base st2 show ?thesis by auto
        qed
      next
        case r2: True
        with c(9) have "codecCtx e2 \<noteq> None" by auto
        with fc1 c(2) obtain fc cc where ctx: "formatCtx e2 = Some fc" "codecCtx e2 = Some cc" by auto
        show ?thesis
        proof (cases "avformat_new_stream I (fc_priv fc) codec")
          case None
          with run of True Some ic r2 ctx
          have res: "r = Raised (CxException ''Failed allocating output stream'')"
            "e' = e2\<lparr>stream := None\<rparr>" "w' = w2"
            by (simp_all add: initialize_def initHWAccel_def)
          have "isOpen e'" using ctx by (simp add: res isOpen_def)
          with res base st2 show ?thesis by auto
        next
          case sm: (Some a)
          obtain st m1 where a: "a = (st, m1)" by (cases a) auto
          define e3 where "e3 = e2\<lparr>stream := Some st, formatCtx := Some (fc\<lparr>fc_priv := m1\<rparr>)\<rparr>"
          have e3: "isOpen e3" "pts e3 = pts e" "packet e3 = packet e" "converter e3 = converter e"
            using ctx base by (simp_all add: e3_def isOpen_def)
          show ?thesis
          proof (cases "avcodec_parameters_from_context I cc < 0")
            case True
            with run of \<open>r1 = Returned ()\<close> Some ic r2 ctx sm a
            have res: "r = Raised (CxException ''Failed to copy codec parameters to stream'')"
              "e' = e3" "w' = w2"
              by (simp_all add: initialize_def initHWAccel_def e3_def Let_def)
            with e3 base st2 show ?thesis by auto
          next
            case False
            obtain ret m2 st2' where wh: "avformat_write_header I m1 (st\<lparr>st_time_base := cc_time_base cc\<rparr>) = (ret, m2, st2')"
              by (metis prod_cases3)
            define e4 where "e4 = e3\<lparr>stream := Some st2', formatCtx := Some (fc\<lparr>fc_priv := m2\<rparr>)\<rparr>"
            have e4: "isOpen e4" "pts e4 = pts e" "packet e4 = packet e" "converter e4 = converter e"
              "stream e4 \<noteq> None"
              using e3 by (simp_all add: e4_def isOpen_def)
            from run of \<open>r1 = Returned ()\<close> Some ic r2 ctx sm a False wh
            have res: "r = (if ret < 0 then Raised (CxException ''Error occurred when writing header to output file'') else Returned ())"
              "e' = e4" "w' = w2"
              by (auto simp: initialize_def initHWAccel_def e3_def e4_def Let_def split: if_splits)
            with e4 base st2 show ?thesis by auto
          qed
        qed
      qed
    qed
  qed
qed

lemma finalize_not_open: "\<not> isOpen e \<Longrightarrow> finalize L e w = Some (Returned False, e, w)"
  by (simp add: finalize_def)

lemma finalize_effect:
  assumes run: "finalize L e w = Some (r, e', w')" and op: "isOpen e"
  shows "cerr w' = cerr w \<and> pts e' = pts e \<and>
     (\<exists>evs. call_post e w e' w' evs \<and> stamps evs = [] \<and>
        (r = Returned True \<longrightarrow> \<not> list_ex failed evs) \<and>
        r \<noteq> Returned False \<and>
        (\<forall>x. r = Raised x \<longrightarrow> list_ex failed evs) \<and>
        (r = Crashed \<longrightarrow> packet e = None \<or> stream e = None))"
proof -
  from op obtain cc fc where ctx: "codecCtx e = Some cc" "formatCtx e = Some fc"
    by (auto simp: isOpen_def)
  obtain ret c1 where snd: "avcodec_send_frame L (cc_priv cc) None = (ret, c1)"
    by (cases "avcodec_send_frame L (cc_priv cc) None") auto
  define e1 where "e1 = e\<lparr>codecCtx := Some (cc\<lparr>cc_priv := c1\<rparr>)\<rparr>"
  define w1 where "w1 = w\<lparr>calls := calls w @ [SendFrame None ret]\<rparr>"
  have e1p: "pts e1 = pts e" "isOpen e1" "packet e1 = packet e" "stream e1 = stream e"
    "codecCtx e1 \<noteq> None" "formatCtx e1 \<noteq> None" "converter e1 = converter e"
    using ctx by (simp_all add: e1_def isOpen_def)
  have w1p: "calls w1 = calls w @ [SendFrame None ret]" "cerr w1 = cerr w"
    by (simp_all add: w1_def)
  have unf: "finalize L e w =
      (if ret < 0 then Some (Raised (CxException ''Error sending flush frame to encoder''), e1, w1)
       else (case flush_loop L ret e1 w1 of
               None \<Rightarrow> None
             | Some (Returned u, e2, w2) \<Rightarrow> Some (write_trailer L e2 w2)
             | Some (Raised x, e2, w2) \<Rightarrow> Some (Raised x, e2, w2)
             | Some (Crashed, e2, w2) \<Rightarrow> Some (Crashed, e2, w2)))"
    using op ctx snd by (simp add: finalize_def Let_def log_call_def e1_def w1_def)
  show ?thesis
  proof (cases "ret < 0")
    case True
    with run unf have res: "r = Raised (CxException ''Error sending flush frame to encoder'')"
      "e' = e1" "w' = w1" by simp_all
    let ?evs = "[SendFrame None ret]"
    have "call_post e w e' w' ?evs" using e1p op by (simp add: call_post_def res w1p)
    moreover have "list_ex failed ?evs" "stamps ?evs = []" using True by simp_all
    ultimately show ?thesis using res w1p(2) e1p(1) by blast
  next
    case False
    with run unf obtain r2 e2 w2 where fl: "flush_loop L ret e1 w1 = Some (r2, e2, w2)"
      by (auto split: option.splits)
    from flush_loop_post[OF fl] obtain evs where
      lp: "same_session e1 e2" "cerr w2 = cerr w1" "calls w2 = calls w1 @ evs" "stamps evs = []"
        "writes_unreffed evs" "r2 = Returned () \<longrightarrow> \<not> list_ex failed evs"
        "\<forall>x. r2 = Raised x \<longrightarrow> list_ex failed evs"
        "r2 = Crashed \<longrightarrow> packet e1 = None \<or> stream e1 = None \<or> codecCtx e1 = None \<or> formatCtx e1 = None"
        "evs = [] \<longrightarrow> e2 = e1" "evs \<noteq> [] \<and> last evs = PacketUnref \<longrightarrow> packet e2 = Some blank_packet"
      unfolding loop_post_def by blast
    have op2: "isOpen e2" using same_session_isOpen[OF lp(1)] e1p(2) by simp
    have p2: "pts e2 = pts e" using lp(1) e1p(1) by (simp add: same_session_def)
    let ?evs = "SendFrame None ret # evs"
    have c2: "calls w2 = calls w @ ?evs" using lp(3) w1p(1) by simp
    have u2: "writes_unreffed ?evs" "stamps ?evs = []" using lp(4,5) by simp_all
    have l2: "?evs \<noteq> [] \<and> last ?evs = PacketUnref \<longrightarrow> packet e2 = Some blank_packet"
      using lp(10) by (cases "evs = []") simp_all
    have k2: "converter e2 = converter e" "stream e2 = stream e"
      "packet e2 = None \<longleftrightarrow> packet e = None"
      using lp(1) e1p by (simp_all add: same_session_def)
    show ?thesis
    proof (cases r2)
      case (Returned u)
      with run unf False fl have wt: "write_trailer L e2 w2 = (r, e', w')" by simp
      from write_trailer_effect[OF wt] op2 obtain rt where
        t: "same_session e2 e'" "cerr w' = cerr w2" "calls w' = calls w2 @ [WriteTrailer rt]"
          "r = (if rt < 0 then Raised (CxException ''Error writing trailer to output file'')
              else Returned True)"
        by (auto simp: isOpen_def)
      let ?all = "?evs @ [WriteTrailer rt]"
      have "isOpen e' = isOpen e" using same_session_isOpen[OF t(1)] op2 op by simp
      moreover have "calls w' = calls w @ ?all" using t(3) c2 by simp
      moreover have "writes_unreffed ?all" using u2(1) by (rule writes_unreffed_append) simp
      moreover have sa: "stamps ?all = []" using lp(4) by (simp add: stamps_append)
      moreover have pe: "pts e' = pts e" using t(1) p2 by (simp add: same_session_def)
      moreover have "?all \<noteq> [] \<and> last ?all = PacketUnref \<longrightarrow> packet e' = Some blank_packet" by simp
      moreover have "converter e' = converter e" "stream e' = stream e"
        "packet e' = None \<longleftrightarrow> packet e = None"
        using t(1) k2 by (simp_all add: same_session_def)
      ultimately have cp: "call_post e w e' w' ?all" unfolding call_post_def by blast
      have nf: "\<not> list_ex failed evs" using lp(6) Returned by simp
      have "r = Returned True \<longrightarrow> \<not> list_ex failed ?all"
        using nf False t(4) by (auto split: if_splits)
      moreover have "r \<noteq> Returned False" "r \<noteq> Crashed" using t(4) by (auto split: if_splits)
      moreover have "\<forall>x. r = Raised x \<longrightarrow> list_ex failed ?all"
        using t(4) by (auto split: if_splits)
      moreover have "cerr w' = cerr w" using t(2) lp(2) w1p(2) by simp
      ultimately show ?thesis using cp sa pe by blast
    next
      case (Raised x)
      with run unf False fl have res: "r = Raised x" "e' = e2" "w' = w2" by simp_all
      have "call_post e w e' w' ?evs"
        using op2 op c2 u2 p2 l2 k2 unfolding call_post_def res by blast
      moreover have "list_ex failed ?evs" using lp(7) Raised by simp
      moreover have "cerr w' = cerr w" using lp(2) w1p(2) res by simp
      ultimately show ?thesis using res(1,2) u2(2) p2 by blast
    next
      case Crashed
      with run unf False fl have res: "r = Crashed" "e' = e2" "w' = w2" by simp_all
      have "call_post e w e' w' ?evs"
        using op2 op c2 u2 p2 l2 k2 unfolding call_post_def res by blast
      moreover have "packet e = None \<or> stream e = None" using lp(8) Crashed e1p by auto
      moreover have "cerr w' = cerr w" using lp(2) w1p(2) res by simp
      ultimately show ?thesis using res(1,2) u2(2) p2 by blast
    qed
  qed
qed

lemma finalize_returns:
  assumes "always_drains L"
  shows "\<exists>y. finalize L e w = Some y"
proof -
  have "\<exists>y. (case flush_loop L ret e1 w1 of
               None \<Rightarrow> None
             | Some (Returned u, e2, w2) \<Rightarrow> Some (write_trailer L e2 w2)
             | Some (Raised x, e2, w2) \<Rightarrow> Some (Raised x, e2, w2)
             | Some (Crashed, e2, w2) \<Rightarrow> Some (Crashed, e2, w2)) = Some y" for ret e1 w1
  proof -
    from flush_loop_total[OF assms] obtain r2 e2 w2 where "flush_loop L ret e1 w1 = Some (r2, e2, w2)"
      by (metis prod_cases3)
    then show ?thesis by (cases r2) (simp_all, metis prod_cases3)
  qed
  then show ?thesis
    by (simp add: finalize_def Let_def split: option.splits prod.splits)
qed

section \<open>Sessions that are not open\<close>

lemma Encoder_new_not_open: "Encoder_new conv pkt fr = Inr e \<Longrightarrow> \<not> isOpen e"
  by (auto simp: Encoder_new_def isOpen_def split: option.splits)

lemma Encoder_new_fresh:
  "Encoder_new (Some reject_zero) (Some blank_packet) 0 = Inr fresh_encoder"
  by (simp add: Encoder_new_def fresh_encoder_def)

lemma moved_from_not_open: "\<not> isOpen (moved_from e)"
  by (simp add: moved_from_def isOpen_def)

lemma close_not_open:
  assumes "close L e w = Some (Returned u, e', w')"
  shows "\<not> isOpen e'"
proof -
  from assms obtain b e1 w1 where "finalize L e w = Some (Returned b, e1, w1)"
    by (auto simp: close_def split: option.splits outcome.splits)
  with assms show ?thesis by (auto simp: close_def Let_def isOpen_def)
qed

text \<open>
  Claim C10. On a session that is not open, \<open>encodeFrame\<close> returns \<open>false\<close>, raises nothing
  and leaves the encoder as it was, its timestamp counter included; the one effect is the
  diagnostic line on \<open>std::cerr\<close>. An encoder that was never initialized, one that was
  closed and one that was moved from are not open.
\<close>

theorem encodeFrame_not_open:
  "(\<not> isOpen e \<longrightarrow>
      encodeFrame L e w buffer =
        Some (Returned False, e,
              w\<lparr>cerr := cerr w @ [''Error in Write Frame: Encoder is not open'']\<rparr>))
   \<and> (Encoder_new conv pkt fr = Inr e1 \<longrightarrow> \<not> isOpen e1)
   \<and> (close L e2 w2 = Some (Returned u, e3, w3) \<longrightarrow> \<not> isOpen e3)
   \<and> \<not> isOpen (moved_from e4)"
proof (intro conjI impI)
  assume "\<not> isOpen e"
  then show "encodeFrame L e w buffer =
        Some (Returned False, e,
              w\<lparr>cerr := cerr w @ [''Error in Write Frame: Encoder is not open'']\<rparr>)"
    by (simp add: encodeFrame_def encodeFrame_try_def)
next
  assume "Encoder_new conv pkt fr = Inr e1"
  then show "\<not> isOpen e1" by (rule Encoder_new_not_open)
next
  assume "close L e2 w2 = Some (Returned u, e3, w3)"
  then show "\<not> isOpen e3" by (rule close_not_open)
next
  show "\<not> isOpen (moved_from e4)" by (rule moved_from_not_open)
qed

text \<open>The claim at a moved-from encoder.\<close>

theorem encodeFrame_not_open_witness:
  "\<not> isOpen (moved_from (open_session [] []))
   \<and> encodeFrame scripted (moved_from (open_session [] [])) quiet 5 =
       Some (Returned False, moved_from (open_session [] []),
             quiet\<lparr>cerr := cerr quiet @ [''Error in Write Frame: Encoder is not open'']\<rparr>)
   \<and> Encoder_new (Some reject_zero) (Some blank_packet) 0 = Inr fresh_encoder
   \<and> \<not> isOpen fresh_encoder
   \<and> (\<exists>e3 w3. close scripted (open_session [] []) quiet = Some (Returned (), e3, w3)
          \<and> \<not> isOpen e3)"
proof -
  let ?c = "moved_from (open_session [] [])"
  note inst = encodeFrame_not_open[of ?c scripted quiet 5 "Some reject_zero" "Some blank_packet" 0
      fresh_encoder "open_session [] []" quiet]
  have h: "\<not> isOpen ?c" by (simp add: moved_from_def isOpen_def)
  from inst h have a: "encodeFrame scripted ?c quiet 5 =
       Some (Returned False, ?c,
             quiet\<lparr>cerr := cerr quiet @ [''Error in Write Frame: Encoder is not open'']\<rparr>)"
    by blast
  from inst Encoder_new_fresh have b: "\<not> isOpen fresh_encoder" by blast
  have "map_option fst (close scripted (open_session [] []) quiet) = Some (Returned ())"
    by code_simp
  then obtain e3 w3 where c: "close scripted (open_session [] []) quiet = Some (Returned (), e3, w3)"
    by auto
  with inst have "\<not> isOpen e3" by blast
  with h a b c Encoder_new_fresh show ?thesis by blast
qed

text \<open>
  Claim C1. When the converter fails on the buffer, \<open>encodeFrame\<close> returns \<open>false\<close>; the
  encoder \<open>e'\<close> it leaves differs from \<open>e\<close> in the frame's pixel data only, so the counter
  \<open>pts\<close> and the codec are untouched, and the only call logged is the failed conversion:
  nothing was sent to the codec. A later call that succeeds stamps \<open>pts e\<close>, the timestamp
  the failed call would have stamped had it succeeded.
\<close>

theorem encodeFrame_conversion_failure:
  assumes "isOpen e" and "converter e = Some conv"
    and "conv (frame_data (frame e)) buffer = (False, d)"
    and "e' = e\<lparr>frame := (frame e)\<lparr>frame_data := d\<rparr>\<rparr>"
    and "w' = w\<lparr>calls := calls w @ [Convert False],
                 cerr := cerr w @ [''Error in Write Frame: Error converting frame'']\<rparr>"
  shows "encodeFrame L e w buffer = Some (Returned False, e', w')
     \<and> pts e' = pts e \<and> codecCtx e' = codecCtx e \<and> stamps (calls w') = stamps (calls w)
     \<and> (\<forall>buffer2 e2 w2. encodeFrame L e' w' buffer2 = Some (Returned True, e2, w2) \<longrightarrow>
            stamps (calls w2) = stamps (calls w) @ [pts e] \<and> pts e2 = pts e + 1)
     \<and> (\<forall>buffer2 e2 w2. encodeFrame L e w buffer2 = Some (Returned True, e2, w2) \<longrightarrow>
            stamps (calls w2) = stamps (calls w) @ [pts e] \<and> pts e2 = pts e + 1)"
proof -
  have run: "encodeFrame L e w buffer = Some (Returned False, e', w')"
    using assms by (simp add: encodeFrame_def encodeFrame_try_def Let_def log_call_def)
  have stamp: "stamps (calls w2) = stamps (calls w0) @ [pts e0] \<and> pts e2 = pts e0 + 1"
    if "encodeFrame L e0 w0 buffer2 = Some (Returned True, e2, w2)" for e0 w0 buffer2 e2 w2
  proof -
    from encodeFrame_effect[OF that] obtain evs where
      "call_post e0 w0 e2 w2 evs" "stamps evs = [pts e0]" by blast
    then show ?thesis by (auto simp: call_post_def stamps_append)
  qed
  have same: "stamps (calls w') = stamps (calls w)" "pts e' = pts e" "codecCtx e' = codecCtx e"
    by (simp_all add: assms(4,5) stamps_append)
  with stamp[of e' w'] stamp[of e w] run show ?thesis by simp
qed

text \<open>A rejected buffer, then an accepted one, on the scripted codec: the accepted frame is stamped 0.\<close>

theorem encodeFrame_conversion_failure_witness:
  "isOpen (open_session [0] []) \<and> converter (open_session [0] []) = Some reject_zero
   \<and> reject_zero (frame_data (frame (open_session [0] []))) 0 = (False, 0)
   \<and> map_option (\<lambda>(r, e2, w2). (r, pts e2, calls w2))
        (encodeFrame scripted (open_session [0] []) quiet 0)
      = Some (Returned False, 0, [Convert False])
   \<and> map_option (\<lambda>(r, e2, w2). (r, pts e2, stamps (calls w2)))
        (encodeFrame scripted ((open_session [0] [])\<lparr>frame := \<lparr>frame_data = 0, frame_pts = 0\<rparr>\<rparr>)
           (quiet\<lparr>calls := [Convert False],
                  cerr := [''Error in Write Frame: Error converting frame'']\<rparr>) 7)
      = Some (Returned True, 1, [0])"
proof -
  let ?e = "open_session [0] []"
  let ?e' = "?e\<lparr>frame := (frame ?e)\<lparr>frame_data := 0\<rparr>\<rparr>"
  let ?w' = "quiet\<lparr>calls := calls quiet @ [Convert False],
                   cerr := cerr quiet @ [''Error in Write Frame: Error converting frame'']\<rparr>"
  have h1: "isOpen ?e" by (simp add: open_session_def isOpen_def)
  have h2: "converter ?e = Some reject_zero" by (simp add: open_session_def)
  have h3: "reject_zero (frame_data (frame ?e)) 0 = (False, 0)"
    by (simp add: reject_zero_def)
  have later: "map_option (\<lambda>(r, e2, w2). (r, pts e2, stamps (calls w2)))
        (encodeFrame scripted ?e' ?w' 7) = Some (Returned True, 1, [0])"
    by code_simp
  from encodeFrame_conversion_failure[OF h1 h2 h3 refl refl, of scripted quiet]
  have "encodeFrame scripted ?e quiet 0 = Some (Returned False, ?e', ?w')" by blast
  then have first: "map_option (\<lambda>(r, e2, w2). (r, pts e2, calls w2)) (encodeFrame scripted ?e quiet 0)
      = Some (Returned False, 0, [Convert False])"
    by (simp add: open_session_def quiet_def)
  have eq: "?e' = ?e\<lparr>frame := \<lparr>frame_data = 0, frame_pts = 0\<rparr>\<rparr>"
       "?w' = quiet\<lparr>calls := [Convert False],
                  cerr := [''Error in Write Frame: Error converting frame'']\<rparr>"
    by (simp_all add: open_session_def quiet_def)
  show ?thesis using h1 h2 h3 first later unfolding eq by blast
qed

section \<open>Timestamps\<close>

lemma counted_step:
  assumes "counted e w" "call_post e w e' w' evs"
  shows "counted e' w'"
proof -
  let ?n = "length (stamps (calls w))"
  from assms(2) have c: "calls w' = calls w @ evs"
    and d: "stamps evs = [] \<and> pts e' = pts e \<or> stamps evs = [pts e] \<and> pts e' = pts e + 1"
    by (simp_all add: call_post_def)
  from d show ?thesis
  proof
    assume "stamps evs = [] \<and> pts e' = pts e"
    with assms(1) c show ?thesis by (simp add: counted_def stamps_append)
  next
    assume h: "stamps evs = [pts e] \<and> pts e' = pts e + 1"
    then have "stamps (calls w') = stamps (calls w) @ [of_nat ?n]"
      using assms(1) c by (simp add: counted_def stamps_append)
    moreover have "map of_nat [0..<Suc ?n] = map of_nat [0..<?n] @ [of_nat ?n :: 64 word]" by simp
    ultimately have "stamps (calls w') = map of_nat [0..<length (stamps (calls w'))]"
      using assms(1) by (simp add: counted_def)
    moreover have "pts e' = of_nat (length (stamps (calls w')))"
      using h assms(1) \<open>stamps (calls w') = _ @ _\<close> by (simp add: counted_def)
    ultimately show ?thesis by (simp add: counted_def)
  qed
qed

lemma perform_counted:
  assumes "perform L e w rq = Some (r, e', w')" "counted e w"
  shows "counted e' w'"
proof (cases rq)
  case (EncodeFrame buffer)
  with assms(1) have "encodeFrame L e w buffer = Some (r, e', w')" by (simp add: perform_def)
  from encodeFrame_effect[OF this] obtain evs where "call_post e w e' w' evs" by blast
  with assms(2) show ?thesis by (rule counted_step)
next
  case Finalize
  with assms(1) have f: "finalize L e w = Some (r, e', w')" by (simp add: perform_def)
  show ?thesis
  proof (cases "isOpen e")
    case True
    from finalize_effect[OF f True] obtain evs where "call_post e w e' w' evs" by blast
    with assms(2) show ?thesis by (rule counted_step)
  next
    case False
    with f have "e' = e" "w' = w" by (simp_all add: finalize_not_open)
    with assms(2) show ?thesis by simp
  qed
qed

lemma session_counted:
  assumes "session L e w rqs = Some (e', w')" "counted e w"
  shows "counted e' w'"
  using assms
proof (induction rqs arbitrary: e w)
  case Nil
  then show ?case by simp
next
  case (Cons rq rqs)
  from Cons.prems(1) obtain r e1 w1 where p: "perform L e w rq = Some (r, e1, w1)"
    by (auto split: option.splits)
  from perform_counted[OF p Cons.prems(2)] have c1: "counted e1 w1" .
  show ?case
  proof (cases "r = Crashed")
    case True
    with Cons.prems(1) p have "e' = e1" "w' = w1" by simp_all
    with c1 show ?thesis by simp
  next
    case False
    with Cons.prems(1) p have "session L e1 w1 rqs = Some (e', w')"
      by (cases r) simp_all
    from Cons.IH[OF this c1] show ?thesis .
  qed
qed

lemma sint_of_nat_64:
  assumes "n < 2 ^ 63"
  shows "sint (of_nat n :: 64 word) = int n"
proof -
  from assms have "int n < 2 ^ 63" by (metis of_nat_less_iff of_nat_numeral of_nat_power)
  then show ?thesis by (simp add: signed_of_nat signed_take_bit_int_eq_self)
qed

lemma stamps_sint:
  assumes "n \<le> 2 ^ 63"
  shows "map sint (map of_nat [0..<n] :: 64 word list) = map int [0..<n]"
proof -
  have "sint (of_nat k :: 64 word) = int k" if "k \<in> set [0..<n]" for k
    using that assms by (intro sint_of_nat_64) simp
  then show ?thesis by (simp add: comp_def)
qed

lemma increasing_upt: "sorted_wrt (<) (map int [0..<n])"
  by (simp add: sorted_wrt_map)


lemma session_returns:
  assumes "always_drains L"
  shows "\<exists>y. session L e w rqs = Some y"
proof (induction rqs arbitrary: e w)
  case Nil
  show ?case by simp
next
  case (Cons rq rqs)
  have "\<exists>y. perform L e w rq = Some y"
    using encodeFrame_returns[OF assms] finalize_returns[OF assms]
    by (cases rq) (simp_all add: perform_def)
  then obtain r e1 w1 where p: "perform L e w rq = Some (r, e1, w1)" by (metis prod_cases3)
  from Cons.IH[of e1 w1] obtain y where "session L e1 w1 rqs = Some y" by blast
  with p show ?case by (cases r) simp_all
qed

text \<open>
  Claim C2. In a session (an encoder constructed, initialized with success, then driven
  by any sequence of \<open>encodeFrame\<close> and \<open>finalize\<close> calls, whatever the codec and the
  muxer answer and however many packets each call drains) the frames handed to the codec
  carry the timestamps \<open>0, 1, \<dots>, n - 1\<close> in this order, and the counter holds \<open>n\<close>: one
  increment for each frame handed over, never a reset. As signed 64-bit values the
  timestamps are strictly increasing as long as \<open>n \<le> 2^63\<close>. (The run of a session ends
  whenever the codec does not hand out packets for ever: \<open>session_returns\<close>.)
\<close>

theorem session_timestamps:
  assumes "Encoder_new conv pkt fr = Inr e0"
    and "initialize I e0 w0 outputPath props = (Returned (), e1, w1)"
    and "stamps (calls w0) = []"
    and "session L e1 w1 rqs = Some (e2, w2)"
    and "n = length (stamps (calls w2))"
  shows "isOpen e1 \<and> stamps (calls w2) = map of_nat [0..<n] \<and> pts e2 = of_nat n
     \<and> (n \<le> 2 ^ 63 \<longrightarrow> map sint (stamps (calls w2)) = map int [0..<n]
                         \<and> sorted_wrt (<) (map sint (stamps (calls w2))))"
proof -
  from assms(1) have "pts e0 = 0" by (auto simp: Encoder_new_def split: option.splits)
  moreover from initialize_effect[OF assms(2)]
  have i: "pts e1 = pts e0" "stamps (calls w1) = stamps (calls w0)" "isOpen e1" by auto
  ultimately have "counted e1 w1" using assms(3) by (simp add: counted_def)
  from session_counted[OF assms(4) this]
  have c: "stamps (calls w2) = map of_nat [0..<n]" "pts e2 = of_nat n"
    by (simp_all add: counted_def assms(5))
  have "map sint (stamps (calls w2)) = map int [0..<n]
        \<and> sorted_wrt (<) (map sint (stamps (calls w2)))" if "n \<le> 2 ^ 63"
  proof -
    have s: "map sint (stamps (calls w2)) = map int [0..<n]"
      using stamps_sint[OF that] c(1) by simp
    show ?thesis by (simp only: s increasing_upt simp_thms)
  qed
  with c i(3) show ?thesis by blast
qed

text \<open>
  Five requests on the scripted codec: the second buffer is rejected by the converter, the
  fifth frame is refused after the flush; the three frames sent are stamped 0, 1, 2.
\<close>

theorem session_timestamps_witness:
  "Encoder_new (Some reject_zero) (Some blank_packet) 0 = Inr fresh_encoder
   \<and> fst (initialize scripted_open fresh_encoder quiet ''out.mp4'' props_720p) = Returned ()
   \<and> stamps (calls quiet) = []
   \<and> map_option (\<lambda>(e, w). (pts e, stamps (calls w)))
        (session scripted
           (fst (snd (initialize scripted_open fresh_encoder quiet ''out.mp4'' props_720p)))
           (snd (snd (initialize scripted_open fresh_encoder quiet ''out.mp4'' props_720p)))
           [EncodeFrame 3, EncodeFrame 0, EncodeFrame 4, Finalize, EncodeFrame 9])
      = Some (3, [0, 1, 2])
   \<and> map sint [0, 1, 2 :: 64 word] = [0, 1, 2]"
proof -
  let ?i = "initialize scripted_open fresh_encoder quiet ''out.mp4'' props_720p"
  let ?e1 = "fst (snd ?i)" and ?w1 = "snd (snd ?i)"
  let ?rqs = "[EncodeFrame 3, EncodeFrame 0, EncodeFrame 4, Finalize, EncodeFrame 9]"
  have h1: "Encoder_new (Some reject_zero) (Some blank_packet) 0 = Inr fresh_encoder"
    by (rule Encoder_new_fresh)
  have r: "fst ?i = Returned ()" by code_simp
  then have h2: "?i = (Returned (), ?e1, ?w1)" by (metis prod.collapse)
  have h3: "stamps (calls quiet) = []" by (simp add: quiet_def)
  have run: "map_option (\<lambda>(e, w). (pts e, stamps (calls w))) (session scripted ?e1 ?w1 ?rqs)
      = Some (3, [0, 1, 2])"
    by code_simp
  then obtain e2 w2 where h4: "session scripted ?e1 ?w1 ?rqs = Some (e2, w2)"
    and v: "pts e2 = 3" "stamps (calls w2) = [0, 1, 2]"
    by auto
  have h5: "3 = length (stamps (calls w2))" using v by simp
  have h6: "(3::nat) \<le> 2 ^ 63" by simp
  from session_timestamps[OF h1 h2 h3 h4 h5] h6
  have "map sint (stamps (calls w2)) = map int [0..<3]" by blast
  then have "map sint [0, 1, 2 :: 64 word] = [0, 1, 2]"
    unfolding v by (simp add: upt_rec)
  with h1 r h3 run show ?thesis by blast
qed

section \<open>Failures of \<open>initialize\<close>\<close>

text \<open>
  Claim C5, as stated, fails: when \<open>avformat_new_stream\<close> returns null, \<open>initialize\<close> raises
  with both contexts allocated, and \<open>isOpen\<close> reports true.
\<close>

theorem initialize_failure_counterexample:
  "fst (initialize no_stream_open fresh_encoder quiet ''out.mp4'' props_720p)
     = Raised (CxException ''Failed allocating output stream'')
   \<and> isOpen (fst (snd (initialize no_stream_open fresh_encoder quiet ''out.mp4'' props_720p)))"
  by code_simp

lemma raised_before_not_after:
  "raised_before_codec outputPath props x \<Longrightarrow> \<not> raised_after_codec x"
  by (cases x) auto

text \<open>
  Claim C5, amended. A call of \<open>initialize\<close> that does not succeed raises an exception.
  On an encoder that had no codec context, \<open>isOpen\<close> reports false afterwards when the
  exception comes from the steps up to the allocation of the codec context (format
  context, output file, codec lookup, codec context), and true when it comes from
  \<open>avcodec_open2\<close>, the stream allocation, the parameter copy or the header.
\<close>

theorem initialize_failure:
  assumes "codecCtx e = None"
    and "initialize I e w outputPath props = (r, e', w')"
    and "r \<noteq> Returned ()"
  shows "\<exists>x. r = Raised x
     \<and> (raised_before_codec outputPath props x \<or> raised_after_codec x)
     \<and> (isOpen e' \<longleftrightarrow> raised_after_codec x)"
proof -
  from initialize_effect[OF assms(2)] assms(3) consider
      x where "r = Raised x" "raised_before_codec outputPath props x" "codecCtx e' = codecCtx e"
    | x where "r = Raised x" "raised_after_codec x" "isOpen e'"
    by blast
  then show ?thesis
  proof cases
    case 1
    then have "\<not> isOpen e'" using assms(1) by (simp add: isOpen_def)
    with 1 raised_before_not_after[OF 1(2)] show ?thesis by blast
  next
    case 2
    then show ?thesis by blast
  qed
qed

text \<open>An unknown codec name: the exception is raised and the session is not open.\<close>

theorem initialize_failure_witness:
  "codecCtx fresh_encoder = None
   \<and> fst (initialize no_codec_open fresh_encoder quiet ''out.mp4'' props_720p)
       = Raised (CxException ''Encoder not found: libx264'')
   \<and> raised_before_codec ''out.mp4'' props_720p (CxException ''Encoder not found: libx264'')
   \<and> \<not> isOpen (fst (snd (initialize no_codec_open fresh_encoder quiet ''out.mp4'' props_720p)))"
proof -
  let ?i = "initialize no_codec_open fresh_encoder quiet ''out.mp4'' props_720p"
  have h1: "codecCtx fresh_encoder = None" by (simp add: fresh_encoder_def)
  have r: "fst ?i = Raised (CxException ''Encoder not found: libx264'')" by code_simp
  have h2: "?i = (fst ?i, fst (snd ?i), snd (snd ?i))" by simp
  have h3: "fst ?i \<noteq> Returned ()" by (simp add: r)
  have b: "raised_before_codec ''out.mp4'' props_720p (CxException ''Encoder not found: libx264'')"
    by (simp add: props_720p_def)
  from initialize_failure[OF h1 h2 h3] r
  have "isOpen (fst (snd ?i)) \<longleftrightarrow> raised_after_codec (CxException ''Encoder not found: libx264'')"
    by auto
  then have "\<not> isOpen (fst (snd ?i))" by simp
  with h1 r b show ?thesis by blast
qed

section \<open>The boundary of \<open>encodeFrame\<close>\<close>

lemma scripted_dry: "dry_within (Suc (length q)) scripted (dr, q) p"
  by (induction q arbitrary: p) (simp_all add: scripted_def AVERROR_EOF_def AVERROR_EAGAIN_def)

lemma scripted_always_drains: "always_drains scripted"
  unfolding always_drains_def using scripted_dry by (metis prod.collapse)

lemma initialize_usable:
  assumes "Encoder_new (Some conv) pkt fr = Inr e0"
    and "initialize I e0 w0 outputPath props = (Returned (), e1, w1)"
  shows "isOpen e1 \<and> usable e1"
proof -
  from assms(1) have "converter e0 \<noteq> None" "packet e0 \<noteq> None"
    by (auto simp: Encoder_new_def split: option.splits)
  with initialize_effect[OF assms(2)] show ?thesis by (auto simp: usable_def)
qed

lemma perform_usable:
  assumes "perform L e w rq = Some (r, e', w')" "usable e"
  shows "usable e'"
proof (cases rq)
  case (EncodeFrame buffer)
  with assms(1) have "encodeFrame L e w buffer = Some (r, e', w')" by (simp add: perform_def)
  from encodeFrame_effect[OF this] obtain evs where "call_post e w e' w' evs" by blast
  with assms(2) show ?thesis by (simp add: call_post_def usable_def)
next
  case Finalize
  with assms(1) have f: "finalize L e w = Some (r, e', w')" by (simp add: perform_def)
  show ?thesis
  proof (cases "isOpen e")
    case True
    from finalize_effect[OF f True] obtain evs where "call_post e w e' w' evs" by blast
    with assms(2) show ?thesis by (simp add: call_post_def usable_def)
  next
    case False
    with f assms(2) show ?thesis by (simp add: finalize_not_open)
  qed
qed

lemma session_usable:
  assumes "session L e w rqs = Some (e', w')" "usable e"
  shows "usable e'"
  using assms
proof (induction rqs arbitrary: e w)
  case Nil
  then show ?case by simp
next
  case (Cons rq rqs)
  from Cons.prems(1) obtain r e1 w1 where p: "perform L e w rq = Some (r, e1, w1)"
    by (auto split: option.splits)
  from perform_usable[OF p Cons.prems(2)] have u1: "usable e1" .
  show ?case
  proof (cases "r = Crashed")
    case True
    with Cons.prems(1) p u1 show ?thesis by simp
  next
    case False
    with Cons.prems(1) p have "session L e1 w1 rqs = Some (e', w')"
      by (cases r) simp_all
    from Cons.IH[OF this u1] show ?thesis .
  qed
qed

text \<open>
  Claim C6. No exception leaves \<open>encodeFrame\<close>. On an encoder that is not open, or is open
  and \<open>usable\<close> (as every session is that was constructed with a converter and initialized
  with success, see \<open>initialize_usable\<close> and \<open>session_usable\<close>), a call that ends returns
  a boolean and leaves \<open>isOpen\<close> as it was; it returns \<open>true\<close> exactly when the session was
  open and no library call it made failed, then without writing to \<open>std::cerr\<close>; otherwise
  it returns \<open>false\<close> and has written one line, \<open>Error in Write Frame:\<close> and the message of
  the exception caught. The call ends whenever the codec does not hand out packets for
  ever.
\<close>

theorem encodeFrame_catches:
  "(\<forall>r e' w'. encodeFrame L e w buffer = Some (r, e', w') \<longrightarrow>
        (\<forall>x. r \<noteq> Raised x)
        \<and> ((isOpen e \<longrightarrow> usable e) \<longrightarrow>
             (\<exists>b evs. r = Returned b \<and> isOpen e' = isOpen e \<and> calls w' = calls w @ evs
                \<and> (b \<longleftrightarrow> isOpen e \<and> \<not> list_ex failed evs)
                \<and> (if b then cerr w' = cerr w
                    else \<exists>x. cerr w' = cerr w @ [''Error in Write Frame: '' @ what x]))))
   \<and> (always_drains L \<longrightarrow> (\<exists>y. encodeFrame L e w buffer = Some y))"
proof (intro conjI allI impI)
  fix r e' w' x
  assume "encodeFrame L e w buffer = Some (r, e', w')"
  from encodeFrame_effect[OF this] show "r \<noteq> Raised x" by blast
next
  fix r e' w'
  assume run: "encodeFrame L e w buffer = Some (r, e', w')" and wf: "isOpen e \<longrightarrow> usable e"
  from encodeFrame_effect[OF run] obtain evs where
    eff: "call_post e w e' w' evs" "\<forall>x. r \<noteq> Raised x"
      "r = Returned True \<longrightarrow> isOpen e \<and> \<not> list_ex failed evs \<and> stamps evs = [pts e] \<and> cerr w' = cerr w"
      "r = Returned False \<longrightarrow> (\<not> isOpen e \<or> list_ex failed evs) \<and>
           (\<exists>x. cerr w' = cerr w @ [''Error in Write Frame: '' @ what x])"
      "r = Crashed \<longrightarrow> isOpen e \<and> (converter e = None \<or> packet e = None \<or> stream e = None)"
    by blast
  from eff(5) wf have "r \<noteq> Crashed" by (auto simp: usable_def)
  with eff(2) obtain b where b: "r = Returned b" by (cases r) auto
  have "isOpen e' = isOpen e" "calls w' = calls w @ evs"
    using eff(1) by (simp_all add: call_post_def)
  moreover have "b \<longleftrightarrow> isOpen e \<and> \<not> list_ex failed evs" using eff(3,4) b by (cases b) auto
  moreover have "if b then cerr w' = cerr w
                 else \<exists>x. cerr w' = cerr w @ [''Error in Write Frame: '' @ what x]"
    using eff(3,4) b by (cases b) auto
  ultimately show "\<exists>b evs. r = Returned b \<and> isOpen e' = isOpen e \<and> calls w' = calls w @ evs
               \<and> (b \<longleftrightarrow> isOpen e \<and> \<not> list_ex failed evs)
               \<and> (if b then cerr w' = cerr w
                   else \<exists>x. cerr w' = cerr w @ [''Error in Write Frame: '' @ what x])"
    using b by blast
next
  assume "always_drains L"
  then show "\<exists>y. encodeFrame L e w buffer = Some y" by (rule encodeFrame_returns)
qed

text \<open>A frame whose second packet the codec refuses with an error code.\<close>

theorem encodeFrame_catches_witness:
  "isOpen (open_session [0, - 5] []) \<and> converter (open_session [0, - 5] []) \<noteq> None
   \<and> packet (open_session [0, - 5] []) \<noteq> None \<and> stream (open_session [0, - 5] []) \<noteq> None
   \<and> always_drains scripted
   \<and> (\<exists>b e' w'. encodeFrame scripted (open_session [0, - 5] []) quiet 7 = Some (Returned b, e', w')
          \<and> isOpen e')
   \<and> map_option (\<lambda>(r, e, w). (r, isOpen e, calls w, cerr w))
        (encodeFrame scripted (open_session [0, - 5] []) quiet 7)
      = Some (Returned False, True,
              [Convert True, SendFrame (Some 0) 0, ReceivePacket 0, RescaleTs, WriteFrame 0,
               PacketUnref, ReceivePacket (- 5)],
              [''Error in Write Frame: Error during encoding''])"
proof -
  let ?e = "open_session [0, - 5] []"
  have h: "isOpen ?e" "converter ?e \<noteq> None" "packet ?e \<noteq> None" "stream ?e \<noteq> None"
    by (simp_all add: open_session_def isOpen_def)
  then have h0: "isOpen ?e \<longrightarrow> usable ?e" by (simp add: usable_def)
  note inst = encodeFrame_catches[of scripted ?e quiet 7]
  from inst scripted_always_drains obtain r e' w' where
    run: "encodeFrame scripted ?e quiet 7 = Some (r, e', w')" by (metis prod_cases3)
  with inst h0 obtain b where "r = Returned b" "isOpen e' = isOpen ?e" by blast
  with run h(1) have ex: "\<exists>b e' w'. encodeFrame scripted ?e quiet 7 = Some (Returned b, e', w') \<and> isOpen e'"
    by blast
  have ev: "map_option (\<lambda>(r, e, w). (r, isOpen e, calls w, cerr w))
        (encodeFrame scripted ?e quiet 7)
      = Some (Returned False, True,
              [Convert True, SendFrame (Some 0) 0, ReceivePacket 0, RescaleTs, WriteFrame 0,
               PacketUnref, ReceivePacket (- 5)],
              [''Error in Write Frame: Error during encoding''])"
    by code_simp
  with h scripted_always_drains ex show ?thesis by blast
qed

section \<open>\<open>finalize\<close> and \<open>close\<close>\<close>

text \<open>
  Claim C7. On a session that is not open \<open>finalize\<close> returns \<open>false\<close> and changes nothing.
  On an open session whose packet and stream pointers are set, a call that ends raises an
  exception when one of its library calls failed (the flush frame was refused, a receive
  reported an error other than "need more input" and "end of stream", a write failed,
  the trailer failed) and returns \<open>true\<close> when none did. The call ends whenever the codec
  does not hand out packets for ever.
\<close>

theorem finalize_result:
  "(\<not> isOpen e \<longrightarrow> finalize L e w = Some (Returned False, e, w))
   \<and> (isOpen e \<and> packet e \<noteq> None \<and> stream e \<noteq> None \<longrightarrow>
        (\<forall>r e' w'. finalize L e w = Some (r, e', w') \<longrightarrow>
           (\<exists>evs. calls w' = calls w @ evs
              \<and> (if list_ex failed evs then \<exists>x. r = Raised x else r = Returned True)))
        \<and> (always_drains L \<longrightarrow> (\<exists>y. finalize L e w = Some y)))"
proof (intro conjI allI impI)
  assume "\<not> isOpen e"
  then show "finalize L e w = Some (Returned False, e, w)" by (rule finalize_not_open)
next
  fix r e' w'
  assume wf: "isOpen e \<and> packet e \<noteq> None \<and> stream e \<noteq> None"
    and run: "finalize L e w = Some (r, e', w')"
  from wf have op: "isOpen e" by simp
  from finalize_effect[OF run op] obtain evs where
    eff: "call_post e w e' w' evs" "r = Returned True \<longrightarrow> \<not> list_ex failed evs"
      "r \<noteq> Returned False" "\<forall>x. r = Raised x \<longrightarrow> list_ex failed evs"
      "r = Crashed \<longrightarrow> packet e = None \<or> stream e = None"
    by blast
  from eff(5) wf have nc: "r \<noteq> Crashed" by blast
  have "calls w' = calls w @ evs" using eff(1) by (simp add: call_post_def)
  moreover have "if list_ex failed evs then \<exists>x. r = Raised x else r = Returned True"
  proof (cases r)
    case (Returned b)
    with eff(3) have "r = Returned True" by (cases b) auto
    with eff(2) show ?thesis by simp
  next
    case (Raised x)
    with eff(4) show ?thesis by simp
  next
    case Crashed
    with nc show ?thesis by simp
  qed
  ultimately show "\<exists>evs. calls w' = calls w @ evs
              \<and> (if list_ex failed evs then \<exists>x. r = Raised x else r = Returned True)"
    by blast
next
  assume "always_drains L"
  then show "\<exists>y. finalize L e w = Some y" by (rule finalize_returns)
qed

text \<open>A closed session, and an open one whose trailer cannot be written.\<close>

theorem finalize_result_witness:
  "\<not> isOpen (moved_from (open_session [] []))
   \<and> finalize scripted (moved_from (open_session [] [])) quiet
       = Some (Returned False, moved_from (open_session [] []), quiet)
   \<and> isOpen (open_session [0, 0] [0, 0, - 28]) \<and> packet (open_session [0, 0] [0, 0, - 28]) \<noteq> None
   \<and> stream (open_session [0, 0] [0, 0, - 28]) \<noteq> None \<and> always_drains scripted
   \<and> (\<exists>y. finalize scripted (open_session [0, 0] [0, 0, - 28]) quiet = Some y)
   \<and> map_option (\<lambda>(r, e, w). (r, calls w)) (finalize scripted (open_session [0, 0] [0, 0, - 28]) quiet)
      = Some (Raised (CxException ''Error writing trailer to output file''),
              [SendFrame None 0, ReceivePacket 0, RescaleTs, WriteFrame 0, PacketUnref,
               ReceivePacket 0, RescaleTs, WriteFrame 0, PacketUnref,
               ReceivePacket AVERROR_EOF, WriteTrailer (- 28)])
   \<and> list_ex failed [SendFrame None 0, ReceivePacket 0, RescaleTs, WriteFrame 0, PacketUnref,
               ReceivePacket 0, RescaleTs, WriteFrame 0, PacketUnref,
               ReceivePacket AVERROR_EOF, WriteTrailer (- 28)]"
proof -
  let ?c = "moved_from (open_session [] [])"
  let ?e = "open_session [0, 0] [0, 0, - 28]"
  have h1: "\<not> isOpen ?c" by (simp add: moved_from_def isOpen_def)
  have h2: "isOpen ?e \<and> packet ?e \<noteq> None \<and> stream ?e \<noteq> None"
    by (simp add: open_session_def isOpen_def)
  from finalize_result[of ?c scripted quiet] h1
  have a: "finalize scripted ?c quiet = Some (Returned False, ?c, quiet)" by blast
  from finalize_result[of ?e scripted quiet] h2 scripted_always_drains
  have b: "\<exists>y. finalize scripted ?e quiet = Some y" by blast
  have ev: "map_option (\<lambda>(r, e, w). (r, calls w)) (finalize scripted ?e quiet)
      = Some (Raised (CxException ''Error writing trailer to output file''),
              [SendFrame None 0, ReceivePacket 0, RescaleTs, WriteFrame 0, PacketUnref,
               ReceivePacket 0, RescaleTs, WriteFrame 0, PacketUnref,
               ReceivePacket AVERROR_EOF, WriteTrailer (- 28)])"
    by code_simp
  have f: "list_ex failed [SendFrame None 0, ReceivePacket 0, RescaleTs, WriteFrame 0, PacketUnref,
               ReceivePacket 0, RescaleTs, WriteFrame 0, PacketUnref,
               ReceivePacket AVERROR_EOF, WriteTrailer (- 28)]"
    by simp
  from h1 a h2 scripted_always_drains b ev f show ?thesis by blast
qed

text \<open>
  Claim C8. The code that relays one packet leaves the packet buffer blank whether the
  write succeeded or failed, and in the calls made by \<open>encodeFrame\<close> and by \<open>finalize\<close>
  every \<open>av_interleaved_write_frame\<close> is followed at once by \<open>av_packet_unref\<close>, before the
  next \<open>avcodec_receive_packet\<close> and before the function is left; when the call ends on that
  \<open>av_packet_unref\<close>, the buffer is blank.
\<close>

theorem packet_unref_after_write:
  "(\<forall>r e' w'. relay_packet L msg e w = (r, e', w') \<and> r \<noteq> Crashed \<longrightarrow>
        packet e' = Some blank_packet
        \<and> (\<exists>rw. calls w' = calls w @ [RescaleTs, WriteFrame rw, PacketUnref]))
   \<and> (\<forall>r e' w'. encodeFrame L e w buffer = Some (r, e', w') \<longrightarrow>
        (\<exists>evs. calls w' = calls w @ evs \<and> writes_unreffed evs
           \<and> (evs \<noteq> [] \<and> last evs = PacketUnref \<longrightarrow> packet e' = Some blank_packet)))
   \<and> (\<forall>r e' w'. finalize L e w = Some (r, e', w') \<longrightarrow>
        (\<exists>evs. calls w' = calls w @ evs \<and> writes_unreffed evs
           \<and> (evs \<noteq> [] \<and> last evs = PacketUnref \<longrightarrow> packet e' = Some blank_packet)))"
proof (intro conjI allI impI)
  fix r e' w'
  assume "relay_packet L msg e w = (r, e', w') \<and> r \<noteq> Crashed"
  then have rel: "relay_packet L msg e w = (r, e', w')" and nc: "r \<noteq> Crashed" by simp_all
  from relay_packet_effect[OF rel] nc
  show "packet e' = Some blank_packet" by blast
  from relay_packet_effect[OF rel] nc
  show "\<exists>rw. calls w' = calls w @ [RescaleTs, WriteFrame rw, PacketUnref]" by blast
next
  fix r e' w'
  assume "encodeFrame L e w buffer = Some (r, e', w')"
  from encodeFrame_effect[OF this] obtain evs where "call_post e w e' w' evs" by blast
  then show "\<exists>evs. calls w' = calls w @ evs \<and> writes_unreffed evs
           \<and> (evs \<noteq> [] \<and> last evs = PacketUnref \<longrightarrow> packet e' = Some blank_packet)"
    unfolding call_post_def by blast
next
  fix r e' w'
  assume run: "finalize L e w = Some (r, e', w')"
  show "\<exists>evs. calls w' = calls w @ evs \<and> writes_unreffed evs
           \<and> (evs \<noteq> [] \<and> last evs = PacketUnref \<longrightarrow> packet e' = Some blank_packet)"
  proof (cases "isOpen e")
    case True
    from finalize_effect[OF run True] obtain evs where "call_post e w e' w' evs" by blast
    then show ?thesis unfolding call_post_def by blast
  next
    case False
    with run have "w' = w" by (simp add: finalize_not_open)
    then have "calls w' = calls w @ []" "writes_unreffed []" by simp_all
    then show ?thesis by blast
  qed
qed

text \<open>A frame with two packets, the second of which cannot be written.\<close>

theorem packet_unref_after_write_witness:
  "map_option (\<lambda>(r, e, w). (r, calls w)) (encodeFrame scripted (open_session [0, 0] [0, - 1]) quiet 7)
     = Some (Returned False,
             [Convert True, SendFrame (Some 0) 0, ReceivePacket 0, RescaleTs, WriteFrame 0,
              PacketUnref, ReceivePacket 0, RescaleTs, WriteFrame (- 1), PacketUnref])
   \<and> writes_unreffed
        [Convert True, SendFrame (Some 0) 0, ReceivePacket 0, RescaleTs, WriteFrame 0,
         PacketUnref, ReceivePacket 0, RescaleTs, WriteFrame (- 1), PacketUnref]
   \<and> (\<exists>r e' w'. encodeFrame scripted (open_session [0, 0] [0, - 1]) quiet 7 = Some (r, e', w')
          \<and> packet e' = Some blank_packet)
   \<and> map_option (\<lambda>(r, e, w). (r, calls w)) (finalize scripted (open_session [0] [- 1]) quiet)
     = Some (Raised (CxException ''Error writing flushed packet to output file''),
             [SendFrame None 0, ReceivePacket 0, RescaleTs, WriteFrame (- 1), PacketUnref])
   \<and> (\<exists>r e' w'. finalize scripted (open_session [0] [- 1]) quiet = Some (r, e', w')
          \<and> packet e' = Some blank_packet)
   \<and> fst (relay_packet scripted [] (open_session [] [- 1]) quiet) = Raised (CxException [])
   \<and> packet (fst (snd (relay_packet scripted [] (open_session [] [- 1]) quiet)))
       = Some blank_packet"
proof -
  let ?e = "open_session [0, 0] [0, - 1]"
  let ?evs = "[Convert True, SendFrame (Some 0) 0, ReceivePacket 0, RescaleTs, WriteFrame 0,
              PacketUnref, ReceivePacket 0, RescaleTs, WriteFrame (- 1), PacketUnref]"
  let ?f = "open_session [0] [- 1]"
  let ?fvs = "[SendFrame None 0, ReceivePacket 0, RescaleTs, WriteFrame (- 1), PacketUnref]"
  let ?g = "open_session [] [- 1]"
  note inst = packet_unref_after_write
  have ev: "map_option (\<lambda>(r, e, w). (r, calls w)) (encodeFrame scripted ?e quiet 7)
     = Some (Returned False, ?evs)"
    by code_simp
  then obtain r e' w' where run: "encodeFrame scripted ?e quiet 7 = Some (r, e', w')"
    and c: "calls w' = ?evs" by auto
  from inst[of scripted "[]" ?e quiet 7] run
  obtain evs where u: "calls w' = calls quiet @ evs" "writes_unreffed evs"
    "evs \<noteq> [] \<and> last evs = PacketUnref \<longrightarrow> packet e' = Some blank_packet" by blast
  from u(1) c have "evs = ?evs" by (simp add: quiet_def)
  with u(2,3) have e1: "writes_unreffed ?evs" "packet e' = Some blank_packet" by simp_all
  have fv: "map_option (\<lambda>(r, e, w). (r, calls w)) (finalize scripted ?f quiet)
     = Some (Raised (CxException ''Error writing flushed packet to output file''), ?fvs)"
    by code_simp
  then obtain r2 e2 w2 where run2: "finalize scripted ?f quiet = Some (r2, e2, w2)"
    and c2: "calls w2 = ?fvs" by auto
  from inst[of scripted "[]" ?f quiet 7] run2
  obtain fvs where v: "calls w2 = calls quiet @ fvs"
    "fvs \<noteq> [] \<and> last fvs = PacketUnref \<longrightarrow> packet e2 = Some blank_packet" by blast
  from v(1) c2 have "fvs = ?fvs" by (simp add: quiet_def)
  with v(2) have e2: "packet e2 = Some blank_packet" by simp
  have rl: "fst (relay_packet scripted [] ?g quiet) = Raised (CxException [])" by code_simp
  then have "relay_packet scripted [] ?g quiet
      = (Raised (CxException []), fst (snd (relay_packet scripted [] ?g quiet)),
         snd (snd (relay_packet scripted [] ?g quiet)))
     \<and> Raised (CxException []) \<noteq> (Crashed :: int outcome)"
    by (metis outcome.distinct(5) prod.collapse)
  with inst[of scripted "[]" ?g quiet]
  have e3: "packet (fst (snd (relay_packet scripted [] ?g quiet))) = Some blank_packet" by blast
  from ev e1 run fv run2 e2 rl e3 show ?thesis by blast
qed

text \<open>
  Claim C9. \<open>finalize\<close> leaves \<open>isOpen\<close> as it was, so the session is still open after a
  \<open>finalize\<close> that returned \<open>true\<close>; \<open>close\<close>, when it returns, leaves a session that is not
  open. \<open>encodeFrame\<close> leaves \<open>isOpen\<close> as it was too, and \<open>initialize\<close> never makes an open
  session report false.
\<close>

theorem finalize_keeps_open:
  "(\<forall>r e' w'. finalize L e w = Some (r, e', w') \<longrightarrow>
        isOpen e' = isOpen e \<and> (r = Returned True \<longrightarrow> isOpen e'))
   \<and> (\<forall>u e' w'. close L e w = Some (Returned u, e', w') \<longrightarrow> \<not> isOpen e')
   \<and> (\<forall>r e' w'. encodeFrame L e w buffer = Some (r, e', w') \<longrightarrow> isOpen e' = isOpen e)
   \<and> (\<forall>r e' w'. initialize I e w outputPath props = (r, e', w') \<and> isOpen e \<longrightarrow> isOpen e')"
proof (intro conjI allI impI)
  fix r e' w'
  assume run: "finalize L e w = Some (r, e', w')"
  show "isOpen e' = isOpen e"
  proof (cases "isOpen e")
    case True
    from finalize_effect[OF run True] show ?thesis by (auto simp: call_post_def)
  next
    case False
    with run show ?thesis by (simp add: finalize_not_open)
  qed
  then show "isOpen e'" if "r = Returned True"
    using that run by (cases "isOpen e") (simp_all add: finalize_not_open)
next
  fix u e' w'
  assume "close L e w = Some (Returned u, e', w')"
  then show "\<not> isOpen e'" by (rule close_not_open)
next
  fix r e' w'
  assume "encodeFrame L e w buffer = Some (r, e', w')"
  from encodeFrame_effect[OF this] show "isOpen e' = isOpen e" by (auto simp: call_post_def)
next
  fix r e' w'
  assume "initialize I e w outputPath props = (r, e', w') \<and> isOpen e"
  then show "isOpen e'" using initialize_effect by blast
qed

text \<open>\<open>finalize\<close> and \<open>close\<close> on the same open session.\<close>

theorem finalize_keeps_open_witness:
  "map_option (\<lambda>(r, e, w). (r, isOpen e)) (finalize scripted (open_session [0] []) quiet)
     = Some (Returned True, True)
   \<and> map_option (\<lambda>(r, e, w). (r, isOpen e)) (close scripted (open_session [0] []) quiet)
     = Some (Returned (), False)
   \<and> (\<exists>e' w'. finalize scripted (open_session [0] []) quiet = Some (Returned True, e', w')
         \<and> isOpen e')
   \<and> (\<exists>e' w'. close scripted (open_session [0] []) quiet = Some (Returned (), e', w')
         \<and> \<not> isOpen e')
   \<and> (\<exists>r e' w'. encodeFrame scripted (open_session [0] []) quiet 0 = Some (r, e', w')
         \<and> isOpen e')
   \<and> isOpen (open_session [0] [])
   \<and> isOpen (fst (snd (initialize no_stream_open (open_session [0] []) quiet ''out.mp4''
                          props_720p)))"
proof -
  let ?e = "open_session [0] []"
  let ?i = "initialize no_stream_open ?e quiet ''out.mp4'' props_720p"
  have o: "isOpen ?e" by (simp add: open_session_def isOpen_def)
  have f: "map_option (\<lambda>(r, e, w). (r, isOpen e)) (finalize scripted ?e quiet) = Some (Returned True, True)"
    by code_simp
  have c: "map_option (\<lambda>(r, e, w). (r, isOpen e)) (close scripted ?e quiet) = Some (Returned (), False)"
    by code_simp
  have "map_option fst (encodeFrame scripted ?e quiet 0) = Some (Returned False)"
    by code_simp
  then obtain r3 e3 w3 where n1: "encodeFrame scripted ?e quiet 0 = Some (r3, e3, w3)" by auto
  from f obtain e1 w1 where f1: "finalize scripted ?e quiet = Some (Returned True, e1, w1)" by auto
  from c obtain e2 w2 where c1: "close scripted ?e quiet = Some (Returned (), e2, w2)" by auto
  note inst = finalize_keeps_open[of scripted ?e quiet 0 no_stream_open "''out.mp4''" props_720p]
  from inst f1 have "isOpen e1" by blast
  moreover from inst c1 have "\<not> isOpen e2" by blast
  moreover from inst n1 o have "isOpen e3" by blast
  moreover have "?i = (fst ?i, fst (snd ?i), snd (snd ?i))" by simp
  with inst o have "isOpen (fst (snd ?i))" by blast
  ultimately show ?thesis using f c f1 c1 n1 o by blast
qed

text \<open>
  Claim C3 does not hold of the code. The codec of \<open>eagain_session\<close> answers the first
  receive after the flush with \<open>AVERROR(EAGAIN)\<close> and holds one more packet. \<open>continue\<close>
  takes the loop of \<open>finalize\<close> back to its test \<open>ret >= 0\<close>, which fails since the code is
  negative: the loop ends at once, the trailer is written and \<open>finalize\<close> returns \<open>true\<close>
  with the packet still in the codec.
\<close>

theorem finalize_stops_at_eagain:
  "map_option (\<lambda>(r, e, w). (r, map_option cc_priv (codecCtx e), calls w))
     (finalize scripted eagain_session quiet)
   = Some (Returned True, Some (True, [0, AVERROR_EOF]),
           [SendFrame None 0, ReceivePacket AVERROR_EAGAIN, WriteTrailer 0])"
  by code_simp

text \<open>
  Claim C4 does not hold of the code. After a \<open>finalize\<close> that returned \<open>true\<close> the session
  is still open, so \<open>close\<close> calls \<open>finalize\<close> again; the codec refuses the second flush
  frame with \<open>AVERROR_EOF\<close>, \<open>finalize\<close> raises, and the exception leaves \<open>close\<close> before
  anything is released: the session stays open with its packet allocated. In the
  destructor the same exception ends the program.
\<close>

theorem close_after_finalize_raises:
  "map_option fst (finalize scripted (open_session [] []) quiet) = Some (Returned True)
   \<and> map_option (\<lambda>(r, e, w). (r, isOpen e, packet e \<noteq> None))
        (Option.bind (finalize scripted (open_session [] []) quiet)
           (\<lambda>(r, e, w). close scripted e w))
      = Some (Raised (CxException ''Error sending flush frame to encoder''), True, True)
   \<and> map_option fst
        (Option.bind (finalize scripted (open_session [] []) quiet)
           (\<lambda>(r, e, w). Encoder_destructor scripted e w))
      = Some (Terminate (CxException ''Error sending flush frame to encoder''))"
  by code_simp

text \<open>What does hold: a \<open>close\<close> that returned is followed by a \<open>close\<close> that changes nothing.\<close>

lemma close_again:
  assumes "close L e w = Some (Returned u, e', w')"
  shows "close L e' w' = Some (Returned (), e', w')"
proof -
  from assms obtain b e1 w1 where f: "finalize L e w = Some (Returned b, e1, w1)"
    by (auto simp: close_def split: option.splits outcome.splits)
  with assms have e': "packet e' = None" "codecCtx e' = None" "formatCtx e' = None"
    "hwDeviceCtx e' = None" "hwFramesCtx e' = None" "stream e' = None"
    by (auto simp: close_def Let_def)
  then have "\<not> isOpen e'" by (simp add: isOpen_def)
  then have "finalize L e' w' = Some (Returned False, e', w')" by (rule finalize_not_open)
  then show ?thesis using e' by (simp add: close_def Let_def log_free_def)
qed

end
